theory Spec2Isabelle
  imports Main "HOL-Library.Sublist"
begin

section \<open>JavaScript values\<close>

text \<open>
  The values that \<^verbatim>\<open>JSON.parse\<close> and the body parser of the server hand to the program.
  Text is a \<^typ>\<open>string\<close> of UTF-8 bytes. A number is kept as the decimal it was written
  as, mantissa and decimal exponent: \<open>JNum m e\<close> stands for \<open>m * 10 ^ e\<close>. An object keeps
  its members in the order they were written; the last member of a name is the one a property
  read sees. The value \<^verbatim>\<open>undefined\<close> is \<open>None\<close> of \<open>json option\<close>.
\<close>

datatype json =
    JNull
  | JBool bool
  | JNum int int
  | JStr string
  | JArr "json list"
  | JObj "(string \<times> json) list"

datatype exn = SyntaxError | TypeError | NetworkError

text \<open>
  A number is falsy when it is zero as a double: the decimal rounds to zero exactly when
  its magnitude is at most \<open>2 ^ - 1075\<close>, half of the least positive double.
\<close>

definition nonzero_double :: "int \<Rightarrow> int \<Rightarrow> bool" where
  "nonzero_double m e =
     (m \<noteq> 0 \<and> (0 \<le> e \<or> 10 ^ nat (- e) < \<bar>m\<bar> * 2 ^ 1075))"

fun truthy :: "json \<Rightarrow> bool" where
  "truthy JNull = False"
| "truthy (JBool b) = b"
| "truthy (JNum m e) = nonzero_double m e"
| "truthy (JStr s) = (s \<noteq> [])"
| "truthy (JArr xs) = True"
| "truthy (JObj kvs) = True"

fun truthy_opt :: "json option \<Rightarrow> bool" where
  "truthy_opt None = False"
| "truthy_opt (Some v) = truthy v"

text \<open>\<^verbatim>\<open>a || b\<close> on values that may be undefined.\<close>

definition js_or :: "json option \<Rightarrow> json option \<Rightarrow> json option" where
  "js_or a b = (if truthy_opt a then a else b)"

text \<open>
  Reading a property. The names the program reads (\<^verbatim>\<open>content\<close>, \<^verbatim>\<open>choices\<close>,
  \<^verbatim>\<open>delta\<close>, \<^verbatim>\<open>message\<close>, \<^verbatim>\<open>model\<close>, \<^verbatim>\<open>usage\<close>, \<^verbatim>\<open>error\<close>, \<^verbatim>\<open>messages\<close>,
  \<^verbatim>\<open>temperature\<close>, \<^verbatim>\<open>max_tokens\<close>) are defined by no built-in prototype, so only an
  object can have them. \<open>get_field\<close> is \<^verbatim>\<open>v.k\<close> on a value that is neither null nor
  undefined; \<open>strict_prop\<close> is \<^verbatim>\<open>v.k\<close>, which throws on null and undefined; \<open>opt_prop\<close> is
  \<^verbatim>\<open>v?.k\<close>.
\<close>

fun get_field :: "json \<Rightarrow> string \<Rightarrow> json option" where
  "get_field (JObj kvs) k = map_of (rev kvs) k"
| "get_field v k = None"

fun strict_prop :: "json option \<Rightarrow> string \<Rightarrow> exn + json option" where
  "strict_prop None k = Inl TypeError"
| "strict_prop (Some JNull) k = Inl TypeError"
| "strict_prop (Some v) k = Inr (get_field v k)"

fun opt_prop :: "json option \<Rightarrow> string \<Rightarrow> json option" where
  "opt_prop None k = None"
| "opt_prop (Some JNull) k = None"
| "opt_prop (Some v) k = get_field v k"

text \<open>
  \<^verbatim>\<open>v[0]\<close>: the first element of an array, the member \<^verbatim>\<open>"0"\<close> of an object, the
  first character of a string. \<open>index0\<close> throws on null and undefined, \<open>opt_index0\<close> is
  \<^verbatim>\<open>v?.[0]\<close>.
\<close>

fun get_index0 :: "json \<Rightarrow> json option" where
  "get_index0 (JArr []) = None"
| "get_index0 (JArr (x # xs)) = Some x"
| "get_index0 (JObj kvs) = map_of (rev kvs) ''0''"
| "get_index0 (JStr []) = None"
| "get_index0 (JStr (c # cs)) = Some (JStr [c])"
| "get_index0 v = None"

fun index0 :: "json option \<Rightarrow> exn + json option" where
  "index0 None = Inl TypeError"
| "index0 (Some JNull) = Inl TypeError"
| "index0 (Some v) = Inr (get_index0 v)"

fun opt_index0 :: "json option \<Rightarrow> json option" where
  "opt_index0 None = None"
| "opt_index0 (Some JNull) = None"
| "opt_index0 (Some v) = get_index0 v"

fun is_array :: "json \<Rightarrow> bool" where
  "is_array (JArr xs) = True"
| "is_array v = False"

text \<open>
  \<^verbatim>\<open>fullContent += content\<close> converts the value to a string. The conversion of an object
  calls its \<^verbatim>\<open>toString\<close>; a parsed object that has a member of that name has no callable
  one, and the conversion throws a \<^verbatim>\<open>TypeError\<close>. An array joins the conversions of its
  elements with commas, null giving the empty text. \<open>stringifiable\<close> says that the conversion
  returns, \<open>empty_text\<close> that it returns the empty string.
\<close>

fun stringifiable :: "json \<Rightarrow> bool" where
  "stringifiable (JObj kvs) = (map_of kvs ''toString'' = None)"
| "stringifiable (JArr xs) = list_all stringifiable xs"
| "stringifiable v = True"

fun empty_text :: "json \<Rightarrow> bool" where
  "empty_text (JStr s) = (s = [])"
| "empty_text (JArr []) = True"
| "empty_text (JArr [x]) = (x = JNull \<or> empty_text x)"
| "empty_text v = False"

section \<open>Strings\<close>

definition startsWith :: "string \<Rightarrow> string \<Rightarrow> bool" where
  "startsWith s p = (take (length p) s = p)"

definition slice :: "string \<Rightarrow> nat \<Rightarrow> string" where
  "slice s n = drop n s"

text \<open>
  \<^verbatim>\<open>chunk.split("\n")\<close>: the pieces between the newlines, always at least one.
  \<open>split_from cur s\<close> carries the piece begun so far.
\<close>

fun split_from :: "string \<Rightarrow> string \<Rightarrow> string list" where
  "split_from cur [] = [cur]"
| "split_from cur (c # cs) =
     (if c = CHR 0x0A then cur # split_from [] cs else split_from (cur @ [c]) cs)"

definition split_nl :: "string \<Rightarrow> string list" where
  "split_nl s = split_from [] s"

text \<open>
  \<^verbatim>\<open>decoder.decode(value)\<close> of a \<^verbatim>\<open>new TextDecoder()\<close>, called without the stream
  option: every call decodes its bytes on their own as UTF-8. A byte that cannot begin or
  continue a sequence, and a sequence cut by the end of the bytes, become U+FFFD; a byte
  order mark at the very start is dropped. \<open>utf8_head b bs\<close> decodes the first character of
  \<open>b # bs\<close> and returns it, as UTF-8 bytes, with the bytes left.
\<close>

definition replacement :: string where
  "replacement = [CHR 0xEF, CHR 0xBF, CHR 0xBD]"

definition byte_order_mark :: string where
  "byte_order_mark = [CHR 0xEF, CHR 0xBB, CHR 0xBF]"

definition byte_in :: "nat \<Rightarrow> nat \<Rightarrow> char \<Rightarrow> bool" where
  "byte_in lo hi b = (lo \<le> (of_char b :: nat) \<and> (of_char b :: nat) \<le> hi)"

definition second_lower :: "char \<Rightarrow> nat" where
  "second_lower b = (if b = CHR 0xE0 then 160 else if b = CHR 0xF0 then 144 else 128)"

definition second_upper :: "char \<Rightarrow> nat" where
  "second_upper b = (if b = CHR 0xED then 159 else if b = CHR 0xF4 then 143 else 191)"

definition utf8_head :: "char \<Rightarrow> string \<Rightarrow> string \<times> string" where
  "utf8_head b bs =
     (if byte_in 0 127 b then ([b], bs)
      else if byte_in 194 223 b then
        (case bs of
           [] \<Rightarrow> (replacement, [])
         | c # r \<Rightarrow> if byte_in 128 191 c then ([b, c], r) else (replacement, bs))
      else if byte_in 224 239 b then
        (case bs of
           [] \<Rightarrow> (replacement, [])
         | c # r \<Rightarrow>
             if byte_in (second_lower b) (second_upper b) c then
               (case r of
                  [] \<Rightarrow> (replacement, [])
                | d # r' \<Rightarrow>
                    if byte_in 128 191 d then ([b, c, d], r') else (replacement, r))
             else (replacement, bs))
      else if byte_in 240 244 b then
        (case bs of
           [] \<Rightarrow> (replacement, [])
         | c # r \<Rightarrow>
             if byte_in (second_lower b) (second_upper b) c then
               (case r of
                  [] \<Rightarrow> (replacement, [])
                | d # r' \<Rightarrow>
                    if byte_in 128 191 d then
                      (case r' of
                         [] \<Rightarrow> (replacement, [])
                       | e # r'' \<Rightarrow>
                           if byte_in 128 191 e then ([b, c, d, e], r'')
                           else (replacement, r'))
                    else (replacement, r))
             else (replacement, bs))
      else (replacement, bs))"

function utf8_sanitize :: "string \<Rightarrow> string" where
  "utf8_sanitize [] = []"
| "utf8_sanitize (b # bs) = fst (utf8_head b bs) @ utf8_sanitize (snd (utf8_head b bs))"
  by pat_completeness auto
termination
  by (relation "measure length") (auto simp: utf8_head_def split: list.splits)

definition strip_bom :: "string \<Rightarrow> string" where
  "strip_bom s = (if take 3 s = byte_order_mark then drop 3 s else s)"

definition TextDecoder_decode :: "string \<Rightarrow> string" where
  "TextDecoder_decode bytes = strip_bom (utf8_sanitize bytes)"

section \<open>The credential of a request (express server, \<^verbatim>\<open>getApiKey\<close>)\<close>

text \<open>
  \<^verbatim>\<open>req.headers\<close> maps a lower-case header name to its value. The process-wide default
  \<^verbatim>\<open>RORAOS_API_KEY\<close> is a parameter.
\<close>

type_synonym headers = "string \<rightharpoonup> string"

definition str_or :: "string option \<Rightarrow> string option \<Rightarrow> string option" where
  "str_or a b = (case a of Some v \<Rightarrow> if v \<noteq> [] then a else b | None \<Rightarrow> b)"

definition getApiKey :: "string \<Rightarrow> headers \<Rightarrow> string" where
  "getApiKey RORAOS_API_KEY hs =
     (let authHeader = str_or (hs ''x-api-key'') (hs ''authorization'') in
      case authHeader of
        None \<Rightarrow> RORAOS_API_KEY
      | Some v \<Rightarrow>
          if v \<noteq> [] \<and> startsWith v ''Bearer '' then slice v 7
          else if v \<noteq> [] then v
          else RORAOS_API_KEY)"

text \<open>A header value without its leading \<^verbatim>\<open>Bearer \<close>, if it has one.\<close>

definition strip_bearer :: "string \<Rightarrow> string" where
  "strip_bearer v = (if startsWith v ''Bearer '' then drop 7 v else v)"

section \<open>\<^verbatim>\<open>JSON.parse\<close>\<close>

text \<open>
  The decoders below take the parser as a parameter: \<open>None\<close> is the \<^verbatim>\<open>SyntaxError\<close> it
  throws. To run them on concrete records, \<open>json_parse\<close> is a recursive-descent parser of
  the JSON grammar: white space, the three literals, numbers, strings with their escapes
  (a \<^verbatim>\<open>\u\<close> escape, or a surrogate pair of them, becomes the UTF-8 bytes of its code
  point), arrays and objects. The recursion carries fuel, more than twice the length of the text.
\<close>

type_synonym parser = "string \<Rightarrow> json option"

definition is_ws :: "char \<Rightarrow> bool" where
  "is_ws c = (c = CHR '' '' \<or> c = CHR 0x0A \<or> c = CHR 0x0D \<or> c = CHR 0x09)"

definition skip_ws :: "string \<Rightarrow> string" where
  "skip_ws s = dropWhile is_ws s"

definition is_digit :: "char \<Rightarrow> bool" where
  "is_digit c = (48 \<le> (of_char c :: nat) \<and> (of_char c :: nat) \<le> 57)"

definition digits_val :: "string \<Rightarrow> nat" where
  "digits_val ds = foldl (\<lambda>n c. 10 * n + (of_char c - 48)) 0 ds"

definition hex_val :: "char \<Rightarrow> nat option" where
  "hex_val c =
     (let n = (of_char c :: nat) in
      if 48 \<le> n \<and> n \<le> 57 then Some (n - 48)
      else if 65 \<le> n \<and> n \<le> 70 then Some (n - 55)
      else if 97 \<le> n \<and> n \<le> 102 then Some (n - 87)
      else None)"

definition hex4 :: "char \<Rightarrow> char \<Rightarrow> char \<Rightarrow> char \<Rightarrow> nat option" where
  "hex4 a b c d =
     (case (hex_val a, hex_val b, hex_val c, hex_val d) of
        (Some w, Some x, Some y, Some z) \<Rightarrow> Some (((w * 16 + x) * 16 + y) * 16 + z)
      | _ \<Rightarrow> None)"

datatype str_item = Byte char | Unit nat

definition escape_char :: "char \<Rightarrow> char option" where
  "escape_char e =
     (if e = CHR 0x22 then Some (CHR 0x22)
      else if e = CHR 0x5C then Some (CHR 0x5C)
      else if e = CHR ''/'' then Some (CHR ''/'')
      else if e = CHR ''b'' then Some (CHR 0x08)
      else if e = CHR ''f'' then Some (CHR 0x0C)
      else if e = CHR ''n'' then Some (CHR 0x0A)
      else if e = CHR ''r'' then Some (CHR 0x0D)
      else if e = CHR ''t'' then Some (CHR 0x09)
      else None)"

fun parse_chars :: "string \<Rightarrow> (str_item list \<times> string) option" where
  "parse_chars [] = None"
| "parse_chars (c # cs) =
     (if c = CHR 0x22 then Some ([], cs)
      else if c = CHR 0x5C then
        (case cs of
           [] \<Rightarrow> None
         | e # r \<Rightarrow>
             if e = CHR ''u'' then
               (case r of
                  h1 # h2 # h3 # h4 # r' \<Rightarrow>
                    (case hex4 h1 h2 h3 h4 of
                       None \<Rightarrow> None
                     | Some n \<Rightarrow> map_option (apfst ((#) (Unit n))) (parse_chars r'))
                | _ \<Rightarrow> None)
             else
               (case escape_char e of
                  None \<Rightarrow> None
                | Some x \<Rightarrow> map_option (apfst ((#) (Byte x))) (parse_chars r)))
      else if (of_char c :: nat) < 32 then None
      else map_option (apfst ((#) (Byte c))) (parse_chars cs))"

definition utf8 :: "nat \<Rightarrow> string" where
  "utf8 n =
     (if n < 128 then [char_of n]
      else if n < 2048 then [char_of (192 + n div 64), char_of (128 + n mod 64)]
      else if n < 65536 then
        [char_of (224 + n div 4096), char_of (128 + n div 64 mod 64), char_of (128 + n mod 64)]
      else
        [char_of (240 + n div 262144), char_of (128 + n div 4096 mod 64),
         char_of (128 + n div 64 mod 64), char_of (128 + n mod 64)])"

fun encode_items :: "str_item list \<Rightarrow> string" where
  "encode_items [] = []"
| "encode_items (Byte c # xs) = c # encode_items xs"
| "encode_items (Unit h # Unit l # xs) =
     (if 55296 \<le> h \<and> h < 56320 \<and> 56320 \<le> l \<and> l < 57344
      then utf8 (65536 + (h - 55296) * 1024 + (l - 56320)) @ encode_items xs
      else utf8 h @ encode_items (Unit l # xs))"
| "encode_items (Unit h # xs) = utf8 h @ encode_items xs"

definition parse_string :: "string \<Rightarrow> (string \<times> string) option" where
  "parse_string s = map_option (apfst encode_items) (parse_chars s)"

definition parse_number :: "string \<Rightarrow> (json \<times> string) option" where
  "parse_number s =
     (let neg = (s \<noteq> [] \<and> hd s = CHR ''-'');
          s1 = (if neg then tl s else s);
          ip = takeWhile is_digit s1;
          s2 = dropWhile is_digit s1;
          has_frac = (s2 \<noteq> [] \<and> hd s2 = CHR ''.'');
          fp = (if has_frac then takeWhile is_digit (tl s2) else []);
          s3 = (if has_frac then dropWhile is_digit (tl s2) else s2);
          has_exp = (s3 \<noteq> [] \<and> (hd s3 = CHR ''e'' \<or> hd s3 = CHR ''E''));
          s4 = (if has_exp then tl s3 else s3);
          eneg = (has_exp \<and> s4 \<noteq> [] \<and> hd s4 = CHR ''-'');
          s5 = (if has_exp \<and> s4 \<noteq> [] \<and> (hd s4 = CHR ''-'' \<or> hd s4 = CHR ''+'') then tl s4 else s4);
          ep = (if has_exp then takeWhile is_digit s5 else []);
          s6 = (if has_exp then dropWhile is_digit s5 else s3);
          m = int (digits_val (ip @ fp));
          x = int (digits_val ep)
      in if ip = [] \<or> (1 < length ip \<and> hd ip = CHR ''0'') \<or> (has_frac \<and> fp = [])
            \<or> (has_exp \<and> ep = [])
         then None
         else Some (JNum (if neg then - m else m) ((if eneg then - x else x) - int (length fp)), s6))"

fun parse_value :: "nat \<Rightarrow> string \<Rightarrow> (json \<times> string) option"
  and parse_elements :: "nat \<Rightarrow> string \<Rightarrow> (json list \<times> string) option"
  and parse_members :: "nat \<Rightarrow> string \<Rightarrow> ((string \<times> json) list \<times> string) option"
where
  "parse_value 0 s = None"
| "parse_value (Suc n) s =
     (case s of
        [] \<Rightarrow> None
      | c # r \<Rightarrow>
          if c = CHR ''{'' then
            (case skip_ws r of
               [] \<Rightarrow> None
             | d # r' \<Rightarrow>
                 if d = CHR ''}'' then Some (JObj [], r')
                 else map_option (apfst JObj) (parse_members n (d # r')))
          else if c = CHR ''['' then
            (case skip_ws r of
               [] \<Rightarrow> None
             | d # r' \<Rightarrow>
                 if d = CHR '']'' then Some (JArr [], r')
                 else map_option (apfst JArr) (parse_elements n (d # r')))
          else if c = CHR 0x22 then map_option (apfst JStr) (parse_string r)
          else if startsWith s ''true'' then Some (JBool True, drop 4 s)
          else if startsWith s ''false'' then Some (JBool False, drop 5 s)
          else if startsWith s ''null'' then Some (JNull, drop 4 s)
          else parse_number s)"
| "parse_elements 0 s = None"
| "parse_elements (Suc n) s =
     (case parse_value n s of
        None \<Rightarrow> None
      | Some (v, r) \<Rightarrow>
          (case skip_ws r of
             [] \<Rightarrow> None
           | d # r' \<Rightarrow>
               if d = CHR '','' then
                 map_option (apfst ((#) v)) (parse_elements n (skip_ws r'))
               else if d = CHR '']'' then Some ([v], r')
               else None))"
| "parse_members 0 s = None"
| "parse_members (Suc n) s =
     (case s of
        [] \<Rightarrow> None
      | q # r \<Rightarrow>
          if q \<noteq> CHR 0x22 then None
          else
            (case parse_string r of
               None \<Rightarrow> None
             | Some (k, r1) \<Rightarrow>
                 (case skip_ws r1 of
                    [] \<Rightarrow> None
                  | c # r2 \<Rightarrow>
                      if c \<noteq> CHR '':'' then None
                      else
                        (case parse_value n (skip_ws r2) of
                           None \<Rightarrow> None
                         | Some (v, r3) \<Rightarrow>
                             (case skip_ws r3 of
                                [] \<Rightarrow> None
                              | d # r4 \<Rightarrow>
                                  if d = CHR '','' then
                                    map_option (apfst ((#) (k, v))) (parse_members n (skip_ws r4))
                                  else if d = CHR ''}'' then Some ([(k, v)], r4)
                                  else None)))))"

definition json_parse :: "string \<Rightarrow> json option" where
  "json_parse s =
     (case parse_value (2 * length s + 2) (skip_ws s) of
        None \<Rightarrow> None
      | Some (v, r) \<Rightarrow> if skip_ws r = [] then Some v else None)"

section \<open>The frame decoders\<close>

text \<open>
  \<^verbatim>\<open>chatCompletionStream\<close> (regular chat API client), from \<^verbatim>\<open>response.body.getReader()\<close>
  on. The body of the response is the list of the byte chunks that \<^verbatim>\<open>reader.read()\<close>
  yields, and the way the source ends: exhausted (\<^verbatim>\<open>done\<close>) or broken (the read
  rejects). \<^verbatim>\<open>fullContent\<close> is kept as the list of the values appended to it by
  \<^verbatim>\<open>+=\<close>, in order: its text is the concatenation of their string conversions.
  \<open>reads\<close> counts the calls of \<^verbatim>\<open>reader.read()\<close>.
\<close>

datatype source_end = Exhausted | Broken

record decoder =
  fullContent :: "json list"
  reads :: nat

text \<open>
  \<^verbatim>\<open>parsed.content || parsed.choices?.[0]?.delta?.content || ""\<close>. Reading
  \<^verbatim>\<open>parsed.content\<close> throws when \<^verbatim>\<open>parsed\<close> is null.
\<close>

definition content_of :: "json \<Rightarrow> exn + json option" where
  "content_of parsed =
     (case strict_prop (Some parsed) ''content'' of
        Inl e \<Rightarrow> Inl e
      | Inr c1 \<Rightarrow>
          if truthy_opt c1 then Inr c1
          else
            (case strict_prop (Some parsed) ''choices'' of
               Inl e \<Rightarrow> Inl e
             | Inr choices \<Rightarrow>
                 Inr (js_or (opt_prop (opt_prop (opt_index0 choices) ''delta'') ''content'')
                        (Some (JStr [])))))"

text \<open>
  \<^verbatim>\<open>if (content) { fullContent += content; ... }\<close>: a falsy value is passed over, and the
  append of a value that has no string conversion throws.
\<close>

definition append_content :: "json option \<Rightarrow> json list \<Rightarrow> exn + json list" where
  "append_content content fc =
     (case content of
        None \<Rightarrow> Inr fc
      | Some c \<Rightarrow>
          if truthy c then (if stringifiable c then Inr (fc @ [c]) else Inl TypeError)
          else Inr fc)"

text \<open>
  The \<^verbatim>\<open>try\<close> block of one record, and the \<^verbatim>\<open>catch\<close> that skips the record. A
  throw of the write to standard output comes after the append and is caught as well, so it
  leaves \<^verbatim>\<open>fullContent\<close> as appended.
\<close>

definition try_record :: "parser \<Rightarrow> string \<Rightarrow> json list \<Rightarrow> exn + json list" where
  "try_record parse data fc =
     (case parse data of
        None \<Rightarrow> Inl SyntaxError
      | Some parsed \<Rightarrow>
          (case content_of parsed of
             Inl e \<Rightarrow> Inl e
           | Inr content \<Rightarrow> append_content content fc))"

definition record_step :: "parser \<Rightarrow> string \<Rightarrow> json list \<Rightarrow> json list" where
  "record_step parse data fc =
     (case try_record parse data fc of Inl e \<Rightarrow> fc | Inr fc' \<Rightarrow> fc')"

text \<open>\<^verbatim>\<open>for (const line of lines)\<close>, with its \<^verbatim>\<open>break\<close> at the sentinel.\<close>

fun for_lines :: "parser \<Rightarrow> string list \<Rightarrow> json list \<Rightarrow> json list" where
  "for_lines parse [] fc = fc"
| "for_lines parse (line # lines) fc =
     (if startsWith line ''data: '' then
        (let data = slice line 6 in
         if data = ''[DONE]'' then fc
         else for_lines parse lines (record_step parse data fc))
      else for_lines parse lines fc)"

text \<open>\<^verbatim>\<open>while (true)\<close>: one read, its bytes decoded, then the lines of the chunk.\<close>

fun read_loop :: "parser \<Rightarrow> string list \<Rightarrow> source_end \<Rightarrow> decoder \<Rightarrow> exn + decoder" where
  "read_loop parse [] e st =
     (case e of
        Exhausted \<Rightarrow> Inr (st\<lparr>reads := Suc (reads st)\<rparr>)
      | Broken \<Rightarrow> Inl NetworkError)"
| "read_loop parse (value # rest) e st =
     read_loop parse rest e
       (st\<lparr>fullContent :=
            for_lines parse (split_nl (TextDecoder_decode value)) (fullContent st),
           reads := Suc (reads st)\<rparr>)"

definition chatCompletionStream :: "parser \<Rightarrow> string list \<Rightarrow> source_end \<Rightarrow> exn + decoder" where
  "chatCompletionStream parse src e = read_loop parse src e \<lparr>fullContent = [], reads = 0\<rparr>"

text \<open>
  \<^verbatim>\<open>sendStreamingRequest\<close> (React hook): the same record step; at the sentinel it goes on
  with the next line (\<^verbatim>\<open>continue\<close>). Every append replaces the last message by the
  content so far.
\<close>

fun for_lines_hook :: "parser \<Rightarrow> string list \<Rightarrow> json list \<Rightarrow> json list" where
  "for_lines_hook parse [] fc = fc"
| "for_lines_hook parse (line # lines) fc =
     (if startsWith line ''data: '' then
        (let data = slice line 6 in
         if data = ''[DONE]'' then for_lines_hook parse lines fc
         else for_lines_hook parse lines (record_step parse data fc))
      else for_lines_hook parse lines fc)"

fun read_loop_hook :: "parser \<Rightarrow> string list \<Rightarrow> source_end \<Rightarrow> decoder \<Rightarrow> exn + decoder" where
  "read_loop_hook parse [] e st =
     (case e of
        Exhausted \<Rightarrow> Inr (st\<lparr>reads := Suc (reads st)\<rparr>)
      | Broken \<Rightarrow> Inl NetworkError)"
| "read_loop_hook parse (value # rest) e st =
     read_loop_hook parse rest e
       (st\<lparr>fullContent :=
            for_lines_hook parse (split_nl (TextDecoder_decode value)) (fullContent st),
           reads := Suc (reads st)\<rparr>)"

definition sendStreamingRequest :: "parser \<Rightarrow> string list \<Rightarrow> source_end \<Rightarrow> exn + decoder" where
  "sendStreamingRequest parse src e = read_loop_hook parse src e \<lparr>fullContent = [], reads = 0\<rparr>"

text \<open>
  \<^verbatim>\<open>agentChatStream\<close> (agent chat API client): \<^verbatim>\<open>parsed.content || ""\<close>, and the
  \<^verbatim>\<open>break\<close> at the sentinel.
\<close>

definition agent_content_of :: "json \<Rightarrow> exn + json option" where
  "agent_content_of parsed =
     (case strict_prop (Some parsed) ''content'' of
        Inl e \<Rightarrow> Inl e
      | Inr c1 \<Rightarrow> Inr (js_or c1 (Some (JStr []))))"

definition agent_try_record :: "parser \<Rightarrow> string \<Rightarrow> json list \<Rightarrow> exn + json list" where
  "agent_try_record parse data fc =
     (case parse data of
        None \<Rightarrow> Inl SyntaxError
      | Some parsed \<Rightarrow>
          (case agent_content_of parsed of
             Inl e \<Rightarrow> Inl e
           | Inr content \<Rightarrow> append_content content fc))"

definition agent_record_step :: "parser \<Rightarrow> string \<Rightarrow> json list \<Rightarrow> json list" where
  "agent_record_step parse data fc =
     (case agent_try_record parse data fc of Inl e \<Rightarrow> fc | Inr fc' \<Rightarrow> fc')"

fun agent_for_lines :: "parser \<Rightarrow> string list \<Rightarrow> json list \<Rightarrow> json list" where
  "agent_for_lines parse [] fc = fc"
| "agent_for_lines parse (line # lines) fc =
     (if startsWith line ''data: '' then
        (let data = slice line 6 in
         if data = ''[DONE]'' then fc
         else agent_for_lines parse lines (agent_record_step parse data fc))
      else agent_for_lines parse lines fc)"

fun agent_read_loop :: "parser \<Rightarrow> string list \<Rightarrow> source_end \<Rightarrow> decoder \<Rightarrow> exn + decoder" where
  "agent_read_loop parse [] e st =
     (case e of
        Exhausted \<Rightarrow> Inr (st\<lparr>reads := Suc (reads st)\<rparr>)
      | Broken \<Rightarrow> Inl NetworkError)"
| "agent_read_loop parse (value # rest) e st =
     agent_read_loop parse rest e
       (st\<lparr>fullContent :=
            agent_for_lines parse (split_nl (TextDecoder_decode value)) (fullContent st),
           reads := Suc (reads st)\<rparr>)"

definition agentChatStream :: "parser \<Rightarrow> string list \<Rightarrow> source_end \<Rightarrow> exn + decoder" where
  "agentChatStream parse src e = agent_read_loop parse src e \<lparr>fullContent = [], reads = 0\<rparr>"

section \<open>The relay (express server)\<close>

subsection \<open>The client response\<close>

text \<open>
  The state of \<^verbatim>\<open>res\<close>: status code, headers set, whether the headers have gone out,
  whether the response has ended, and the log of the calls that took effect, in order.
  The handlers set headers only before anything is sent.
\<close>

datatype res_action =
    SetHeader string string
  | Status nat
  | Json json
  | Write string
  | End_response

record response =
  statusCode :: nat
  res_headers :: "(string \<times> string) list"
  headersSent :: bool
  finished :: bool
  log :: "res_action list"

definition fresh :: response where
  "fresh = \<lparr>statusCode = 200, res_headers = [], headersSent = False, finished = False, log = []\<rparr>"

definition res_setHeader :: "string \<Rightarrow> string \<Rightarrow> response \<Rightarrow> response" where
  "res_setHeader k v r =
     r\<lparr>res_headers := (k, v) # filter (\<lambda>p. fst p \<noteq> k) (res_headers r),
       log := log r @ [SetHeader k v]\<rparr>"

definition res_status :: "nat \<Rightarrow> response \<Rightarrow> response" where
  "res_status n r = r\<lparr>statusCode := n, log := log r @ [Status n]\<rparr>"

text \<open>
  \<^verbatim>\<open>res.json\<close> sends the body and ends the response. The content type that it settles
  for the body is left out of the state.
\<close>

definition res_json :: "json \<Rightarrow> response \<Rightarrow> response" where
  "res_json v r = r\<lparr>headersSent := True, finished := True, log := log r @ [Json v]\<rparr>"

text \<open>A write after the end sends nothing.\<close>

definition res_write :: "string \<Rightarrow> response \<Rightarrow> response" where
  "res_write chunk r =
     (if finished r then r
      else r\<lparr>headersSent := True, log := log r @ [Write chunk]\<rparr>)"

definition res_end :: "response \<Rightarrow> response" where
  "res_end r =
     (if finished r then r
      else r\<lparr>headersSent := True, finished := True, log := log r @ [End_response]\<rparr>)"

text \<open>The chunks written to the body, and the JSON bodies sent, in order.\<close>

fun written :: "res_action list \<Rightarrow> string list" where
  "written [] = []"
| "written (Write c # as) = c # written as"
| "written (a # as) = written as"

fun json_bodies :: "res_action list \<Rightarrow> json list" where
  "json_bodies [] = []"
| "json_bodies (Json v # as) = v # json_bodies as"
| "json_bodies (a # as) = json_bodies as"

subsection \<open>The upstream call\<close>

text \<open>
  \<^verbatim>\<open>req.body\<close> is the object that the JSON body parser leaves, as its members; a
  request is one whose body was parsed.
  One \<^verbatim>\<open>axios.post\<close> either resolves with the data of a success status, or rejects with
  the response of a non-success status, or rejects with no response (network failure,
  timeout). With \<^verbatim>\<open>responseType: "stream"\<close> the data is a stream, here the list of the
  events it will emit. The upstream is a parameter of each handler, which returns the final
  response with the list of the upstream calls it made.
\<close>

record request =
  req_headers :: headers
  req_body :: "(string \<times> json) list"

record upstream_request =
  up_messages :: json
  up_model :: json
  up_temperature :: json
  up_max_tokens :: json
  up_stream :: bool
  up_authorization :: string

datatype 'd axios_result = Resolved 'd | Rejected nat 'd | Failed

datatype stream_event = Data string | End_of_stream | Stream_error

text \<open>Destructuring with a default: the default stands in for a member that is undefined.\<close>

definition member_or :: "(string \<times> json) list \<Rightarrow> string \<Rightarrow> json \<Rightarrow> json" where
  "member_or b k d = (case map_of (rev b) k of None \<Rightarrow> d | Some v \<Rightarrow> v)"

text \<open>\<^verbatim>\<open>!messages || !Array.isArray(messages)\<close>\<close>

definition invalid_messages :: "json option \<Rightarrow> bool" where
  "invalid_messages messages =
     (\<not> truthy_opt messages \<or> \<not> (case messages of None \<Rightarrow> False | Some v \<Rightarrow> is_array v))"

definition error_body :: "string \<Rightarrow> json" where
  "error_body msg = JObj [(''error'', JStr msg)]"

definition bad_request :: "response \<Rightarrow> response" where
  "bad_request r = res_json (error_body ''messages array is required'') (res_status 400 r)"

definition build_request :: "string \<Rightarrow> request \<Rightarrow> json \<Rightarrow> bool \<Rightarrow> upstream_request" where
  "build_request RORAOS_API_KEY req messages stream =
     \<lparr>up_messages = messages,
      up_model = member_or (req_body req) ''model'' (JStr ''gpt-4o''),
      up_temperature = member_or (req_body req) ''temperature'' (JNum 7 (- 1)),
      up_max_tokens = member_or (req_body req) ''max_tokens'' (JNum 2000 0),
      up_stream = stream,
      up_authorization = ''Bearer '' @ getApiKey RORAOS_API_KEY (req_headers req)\<rparr>"

text \<open>An object literal: a member whose value is undefined is not serialised.\<close>

fun object_of :: "(string \<times> json option) list \<Rightarrow> (string \<times> json) list" where
  "object_of [] = []"
| "object_of ((k, None) # ms) = object_of ms"
| "object_of ((k, Some v) # ms) = (k, v) # object_of ms"

subsection \<open>\<^verbatim>\<open>POST /api/chat\<close>\<close>

text \<open>
  The object handed to \<^verbatim>\<open>res.json\<close> on success. The chain
  \<^verbatim>\<open>response.data.choices[0].message.content\<close> throws where a link is null or undefined.
\<close>

definition chat_result :: "json \<Rightarrow> json \<Rightarrow> exn + json" where
  "chat_result data model =
     (case strict_prop (Some data) ''choices'' of
        Inl e \<Rightarrow> Inl e
      | Inr choices \<Rightarrow>
          (case index0 choices of
             Inl e \<Rightarrow> Inl e
           | Inr first \<Rightarrow>
               (case strict_prop first ''message'' of
                  Inl e \<Rightarrow> Inl e
                | Inr message \<Rightarrow>
                    (case strict_prop message ''content'' of
                       Inl e \<Rightarrow> Inl e
                     | Inr content \<Rightarrow>
                         Inr (JObj (object_of
                           [(''content'', content),
                            (''model'', js_or (get_field data ''model'') (Some model)),
                            (''usage'', get_field data ''usage'')]))))))"

text \<open>
  The \<^verbatim>\<open>catch\<close> block. With a response in the error, its status is set and then its
  \<^verbatim>\<open>data.error\<close> read; where that read throws, the throw leaves the handler and
  nothing is sent.
\<close>

definition chat_catch :: "(nat \<times> json) option \<Rightarrow> response \<Rightarrow> response" where
  "chat_catch error_response r =
     (case error_response of
        Some (status, data) \<Rightarrow>
          (case strict_prop (Some data) ''error'' of
             Inl e \<Rightarrow> res_status status r
           | Inr err \<Rightarrow>
               res_json (JObj (object_of
                   [(''error'', js_or err (Some (JStr ''API request failed'')))]))
                 (res_status status r))
      | None \<Rightarrow> res_json (error_body ''Internal server error'') (res_status 500 r))"

definition chat_handler ::
  "string \<Rightarrow> (upstream_request \<Rightarrow> json axios_result) \<Rightarrow> request
     \<Rightarrow> response \<times> upstream_request list" where
  "chat_handler RORAOS_API_KEY post req =
     (let messages = map_of (rev (req_body req)) ''messages'' in
      if invalid_messages messages then (bad_request fresh, [])
      else
        (case messages of
           None \<Rightarrow> (bad_request fresh, [])
         | Some ms \<Rightarrow>
             (let call = build_request RORAOS_API_KEY req ms False in
              case post call of
                Resolved data \<Rightarrow>
                  (case chat_result data (up_model call) of
                     Inl e \<Rightarrow> (chat_catch None fresh, [call])
                   | Inr result \<Rightarrow> (res_json result fresh, [call]))
              | Rejected status data \<Rightarrow> (chat_catch (Some (status, data)) fresh, [call])
              | Failed \<Rightarrow> (chat_catch None fresh, [call]))))"

subsection \<open>\<^verbatim>\<open>POST /api/chat/stream\<close>\<close>

definition sse_headers :: "response \<Rightarrow> response" where
  "sse_headers r =
     res_setHeader ''Connection'' ''keep-alive''
       (res_setHeader ''Cache-Control'' ''no-cache''
         (res_setHeader ''Content-Type'' ''text/event-stream'' r))"

text \<open>The three listeners on the upstream stream.\<close>

fun on_event :: "stream_event \<Rightarrow> response \<Rightarrow> response" where
  "on_event (Data chunk) r = res_write chunk r"
| "on_event End_of_stream r = res_end r"
| "on_event Stream_error r = res_end r"

fun pipe_stream :: "stream_event list \<Rightarrow> response \<Rightarrow> response" where
  "pipe_stream [] r = r"
| "pipe_stream (ev # evs) r = pipe_stream evs (on_event ev r)"

definition stream_catch :: "response \<Rightarrow> response" where
  "stream_catch r =
     (if \<not> headersSent r
      then res_json (error_body ''Internal server error'') (res_status 500 r)
      else res_end r)"

definition chat_stream_handler ::
  "string \<Rightarrow> (upstream_request \<Rightarrow> stream_event list axios_result) \<Rightarrow> request
     \<Rightarrow> response \<times> upstream_request list" where
  "chat_stream_handler RORAOS_API_KEY post req =
     (let messages = map_of (rev (req_body req)) ''messages'' in
      if invalid_messages messages then (bad_request fresh, [])
      else
        (case messages of
           None \<Rightarrow> (bad_request fresh, [])
         | Some ms \<Rightarrow>
             (let call = build_request RORAOS_API_KEY req ms True;
                  r = sse_headers fresh in
              case post call of
                Resolved events \<Rightarrow> (pipe_stream events r, [call])
              | Rejected status data \<Rightarrow> (stream_catch r, [call])
              | Failed \<Rightarrow> (stream_catch r, [call]))))"

section \<open>Notions of the specification and fixtures\<close>

text \<open>A newline-terminated record, as the upstream sends it.\<close>

definition record_line :: "string \<Rightarrow> string" where
  "record_line s = s @ [CHR 0x0A]"

text \<open>
  The deltas that each decoder takes from one text split at its newlines, and from one chunk
  of bytes read on its own.
\<close>

definition text_deltas :: "parser \<Rightarrow> string \<Rightarrow> json list" where
  "text_deltas parse t = for_lines parse (split_nl t) []"

definition text_deltas_hook :: "parser \<Rightarrow> string \<Rightarrow> json list" where
  "text_deltas_hook parse t = for_lines_hook parse (split_nl t) []"

definition chunk_deltas :: "parser \<Rightarrow> string \<Rightarrow> json list" where
  "chunk_deltas parse chunk = text_deltas parse (TextDecoder_decode chunk)"

definition chunk_deltas_hook :: "parser \<Rightarrow> string \<Rightarrow> json list" where
  "chunk_deltas_hook parse chunk = text_deltas_hook parse (TextDecoder_decode chunk)"

text \<open>
  The extraction as the specification words it: a prioritised list of field paths, probed in
  order against the parsed value, the first non-empty result being the delta text; an empty
  text is no delta.
\<close>

datatype path_step = Field string | Index0

fun probe_path :: "path_step list \<Rightarrow> json option \<Rightarrow> json option" where
  "probe_path [] v = v"
| "probe_path (Field k # p) v = probe_path p (opt_prop v k)"
| "probe_path (Index0 # p) v = probe_path p (opt_index0 v)"

fun first_probe :: "path_step list list \<Rightarrow> json \<Rightarrow> json option" where
  "first_probe [] v = None"
| "first_probe (p # ps) v =
     (if truthy_opt (probe_path p (Some v)) then probe_path p (Some v)
      else first_probe ps v)"

definition spec_delta :: "path_step list list \<Rightarrow> json \<Rightarrow> json list" where
  "spec_delta ps v = (case first_probe ps v of None \<Rightarrow> [] | Some c \<Rightarrow> [c])"

definition content_probes :: "path_step list list" where
  "content_probes =
     [[Field ''content''], [Field ''choices'', Index0, Field ''delta'', Field ''content'']]"

text \<open>
  The frame decoder as the specification words it, over the bytes delivered so far: bytes are
  held until a full newline-terminated record is there; a record counts only if it begins
  with the event prefix; what follows the prefix is the end sentinel, which ends the
  decoding, or a JSON payload, from which the probes take the delta; a payload that does not
  parse is skipped.
\<close>

fun full_records :: "string \<Rightarrow> string \<Rightarrow> string list" where
  "full_records cur [] = []"
| "full_records cur (c # cs) =
     (if c = CHR 0x0A then cur # full_records [] cs else full_records (cur @ [c]) cs)"

fun spec_records :: "parser \<Rightarrow> string list \<Rightarrow> json list" where
  "spec_records parse [] = []"
| "spec_records parse (r # rs) =
     (if startsWith r ''data: '' then
        (if drop 6 r = ''[DONE]'' then []
         else
           (case parse (drop 6 r) of
              None \<Rightarrow> spec_records parse rs
            | Some v \<Rightarrow> spec_delta content_probes v @ spec_records parse rs))
      else spec_records parse rs)"

definition spec_frame_decoder :: "parser \<Rightarrow> string \<Rightarrow> json list" where
  "spec_frame_decoder parse bytes = spec_records parse (full_records [] bytes)"

text \<open>Where a buffered completion of the upstream carries its content.\<close>

definition completion_path :: "path_step list" where
  "completion_path = [Field ''choices'', Index0, Field ''message'', Field ''content'']"

text \<open>The \<^verbatim>\<open>content\<close> member of the JSON body that a response carries.\<close>

definition sent_content :: "response \<Rightarrow> json option" where
  "sent_content r =
     (case json_bodies (log r) of
        [body] \<Rightarrow> get_field body ''content''
      | bodies \<Rightarrow> None)"

text \<open>
  What the streaming endpoint passes on of an upstream stream: its data chunks up to the end
  or the error of the stream.
\<close>

fun forwarded :: "stream_event list \<Rightarrow> string list" where
  "forwarded [] = []"
| "forwarded (Data chunk # evs) = chunk # forwarded evs"
| "forwarded (ev # evs) = []"

text \<open>A request with one user message, and one with an empty message list.\<close>

definition hello_request :: request where
  "hello_request =
     \<lparr>req_headers = Map.empty,
      req_body = [(''messages'',
        JArr [JObj [(''role'', JStr ''user''), (''content'', JStr ''Hi'')]])]\<rparr>"

definition empty_request :: request where
  "empty_request = \<lparr>req_headers = Map.empty, req_body = [(''messages'', JArr [])]\<rparr>"

definition no_messages_request :: request where
  "no_messages_request = \<lparr>req_headers = Map.empty, req_body = [(''model'', JStr ''gpt-4o'')]\<rparr>"

text \<open>
  A stub upstream that answers every call with the content \<^verbatim>\<open>Hello\<close>: buffered as one
  completion, streamed as the two deltas \<^verbatim>\<open>Hel\<close> and \<^verbatim>\<open>lo\<close> and the sentinel, the
  first chunk ending in the middle of the first record.
\<close>

definition hello_completion :: json where
  "hello_completion =
     JObj [(''model'', JStr ''gpt-4o''),
           (''choices'', JArr [JObj [(''message'',
              JObj [(''role'', JStr ''assistant''), (''content'', JStr ''Hello'')])]])]"

definition hello_json :: "upstream_request \<Rightarrow> json axios_result" where
  "hello_json call = Resolved hello_completion"

definition hello_whole :: string where
  \<open>hello_whole =
     record_line ''data: {"content":"Hel"}'' @ record_line ''data: {"content":"lo"}''
       @ record_line ''data: [DONE]''\<close>

definition hello_records :: "string list" where
  \<open>hello_records =
     [record_line ''data: {"content":"Hel"}'', record_line ''data: {"content":"lo"}'',
      record_line ''data: [DONE]'']\<close>

definition hello_midline :: "string list" where
  \<open>hello_midline =
     [''data: {"cont'',
      record_line ''ent":"Hel"}'' @ record_line ''data: {"content":"lo"}''
        @ record_line ''data: [DONE]'']\<close>

definition hello_stream :: "upstream_request \<Rightarrow> stream_event list axios_result" where
  "hello_stream call = Resolved (map Data hello_midline @ [End_of_stream])"

text \<open>A stub upstream that rejects every call with status 429.\<close>

definition limited_json :: "upstream_request \<Rightarrow> json axios_result" where
  "limited_json call = Rejected 429 (JObj [(''error'', JStr ''rate limited'')])"

definition limited_stream :: "upstream_request \<Rightarrow> stream_event list axios_result" where
  \<open>limited_stream call = Rejected 429 [Data ''{"error":"rate limited"}'', End_of_stream]\<close>

text \<open>An upstream whose stream breaks after one chunk.\<close>

definition broken_stream :: "upstream_request \<Rightarrow> stream_event list axios_result" where
  "broken_stream call = Resolved [Data ''data: {'', Stream_error]"

section \<open>Properties of the credential\<close>

text \<open>
  C10, as amended. The credential is chosen from the headers alone: a non-empty
  \<^verbatim>\<open>x-api-key\<close> header wins over \<^verbatim>\<open>authorization\<close>; a header that is absent or empty
  counts as absent; the chosen value loses a leading \<^verbatim>\<open>Bearer \<close> (seven characters) and
  is used verbatim otherwise; with no non-empty header the process-wide default is used.
\<close>

theorem getApiKey_precedence:
  "(hs ''x-api-key'' = Some k \<and> k \<noteq> [] \<longrightarrow> getApiKey K hs = strip_bearer k)
   \<and> ((hs ''x-api-key'' = None \<or> hs ''x-api-key'' = Some [])
        \<and> hs ''authorization'' = Some a \<and> a \<noteq> []
        \<longrightarrow> getApiKey K hs = strip_bearer a)
   \<and> ((hs ''x-api-key'' = None \<or> hs ''x-api-key'' = Some [])
        \<and> (hs ''authorization'' = None \<or> hs ''authorization'' = Some [])
        \<longrightarrow> getApiKey K hs = K)"
  by (auto simp: getApiKey_def str_or_def strip_bearer_def slice_def Let_def)

theorem getApiKey_precedence_witness:
  "getApiKey ''your-api-key-here''
      [''x-api-key'' \<mapsto> ''Bearer abc'', ''authorization'' \<mapsto> ''Bearer xyz''] = ''abc''
   \<and> getApiKey ''your-api-key-here''
      [''x-api-key'' \<mapsto> ''abc'', ''authorization'' \<mapsto> ''Bearer xyz''] = ''abc''
   \<and> getApiKey ''your-api-key-here'' [''authorization'' \<mapsto> ''Bearer xyz''] = ''xyz''
   \<and> getApiKey ''your-api-key-here'' Map.empty = ''your-api-key-here''"
  using
    getApiKey_precedence
      [of "[''x-api-key'' \<mapsto> ''Bearer abc'', ''authorization'' \<mapsto> ''Bearer xyz'']"
          "''Bearer abc''" "''your-api-key-here''" "''Bearer xyz''"]
    getApiKey_precedence
      [of "[''x-api-key'' \<mapsto> ''abc'', ''authorization'' \<mapsto> ''Bearer xyz'']"
          "''abc''" "''your-api-key-here''" "''Bearer xyz''"]
    getApiKey_precedence
      [of "[''authorization'' \<mapsto> ''Bearer xyz'']" "''''" "''your-api-key-here''"
          "''Bearer xyz''"]
    getApiKey_precedence [of "Map.empty" "''''" "''your-api-key-here''" "''''"]
  by (simp add: strip_bearer_def startsWith_def)

text \<open>
  C10 as stated fails where the \<^verbatim>\<open>x-api-key\<close> header is present and empty: the
  \<^verbatim>\<open>authorization\<close> header is taken, not the empty value.
\<close>

theorem getApiKey_empty_header_counterexample:
  "[''x-api-key'' \<mapsto> '''', ''authorization'' \<mapsto> ''Bearer tok''] ''x-api-key'' = Some ''''
   \<and> getApiKey ''your-api-key-here''
        [''x-api-key'' \<mapsto> '''', ''authorization'' \<mapsto> ''Bearer tok''] = ''tok''
   \<and> getApiKey ''your-api-key-here''
        [''x-api-key'' \<mapsto> '''', ''authorization'' \<mapsto> ''Bearer tok''] \<noteq> strip_bearer ''''"
  by (simp add: getApiKey_def str_or_def strip_bearer_def slice_def startsWith_def)

section \<open>Properties of the relay\<close>

subsection \<open>Validation\<close>

lemma invalid_messages_iff:
  "invalid_messages m \<longleftrightarrow> (m = None \<or> (\<exists>v. m = Some v \<and> \<not> is_array v))"
  by (cases m; cases "the m") (auto simp: invalid_messages_def)

lemma bad_request_fresh:
  "statusCode (bad_request fresh) = 400
   \<and> json_bodies (log (bad_request fresh)) = [error_body ''messages array is required'']
   \<and> written (log (bad_request fresh)) = []"
  by (simp add: bad_request_def res_json_def res_status_def fresh_def)

text \<open>
  C2, as amended. A request whose \<^verbatim>\<open>messages\<close> member is absent or is not an array is
  answered by both endpoints with status 400 and the error body, and no upstream call is made.
  An array passes the validation whatever its length, the empty one too, and one upstream
  call is made for it.
\<close>

theorem messages_validation:
  "(map_of (rev (req_body req)) ''messages'' = None
      \<or> (\<exists>v. map_of (rev (req_body req)) ''messages'' = Some v \<and> \<not> is_array v)
    \<longrightarrow> statusCode (fst (chat_handler K post req)) = 400
        \<and> json_bodies (log (fst (chat_handler K post req)))
            = [error_body ''messages array is required'']
        \<and> snd (chat_handler K post req) = []
        \<and> statusCode (fst (chat_stream_handler K post' req)) = 400
        \<and> json_bodies (log (fst (chat_stream_handler K post' req)))
            = [error_body ''messages array is required'']
        \<and> snd (chat_stream_handler K post' req) = [])
   \<and> (map_of (rev (req_body req)) ''messages'' = Some (JArr xs)
    \<longrightarrow> snd (chat_handler K post req) = [build_request K req (JArr xs) False]
        \<and> snd (chat_stream_handler K post' req) = [build_request K req (JArr xs) True])"
proof (intro conjI impI)
  assume a: "map_of (rev (req_body req)) ''messages'' = None
      \<or> (\<exists>v. map_of (rev (req_body req)) ''messages'' = Some v \<and> \<not> is_array v)"
  then have inv: "invalid_messages (map_of (rev (req_body req)) ''messages'')"
    by (simp add: invalid_messages_iff)
  have b: "chat_handler K post req = (bad_request fresh, [])"
    using inv by (simp add: chat_handler_def)
  have s: "chat_stream_handler K post' req = (bad_request fresh, [])"
    using inv by (simp add: chat_stream_handler_def)
  show "statusCode (fst (chat_handler K post req)) = 400"
    using b bad_request_fresh by simp
  show "json_bodies (log (fst (chat_handler K post req)))
          = [error_body ''messages array is required'']"
    using b bad_request_fresh by simp
  show "snd (chat_handler K post req) = []"
    using b by simp
  show "statusCode (fst (chat_stream_handler K post' req)) = 400"
    using s bad_request_fresh by simp
  show "json_bodies (log (fst (chat_stream_handler K post' req)))
          = [error_body ''messages array is required'']"
    using s bad_request_fresh by simp
  show "snd (chat_stream_handler K post' req) = []"
    using s by simp
next
  assume a: "map_of (rev (req_body req)) ''messages'' = Some (JArr xs)"
  show "snd (chat_handler K post req) = [build_request K req (JArr xs) False]"
    using a
    by (simp add: chat_handler_def invalid_messages_iff Let_def
        split: axios_result.splits sum.splits)
next
  assume a: "map_of (rev (req_body req)) ''messages'' = Some (JArr xs)"
  show "snd (chat_stream_handler K post' req) = [build_request K req (JArr xs) True]"
    using a
    by (simp add: chat_stream_handler_def invalid_messages_iff Let_def
        split: axios_result.splits)
qed

theorem messages_validation_witness:
  "statusCode (fst (chat_handler ''k'' hello_json no_messages_request)) = 400
   \<and> snd (chat_handler ''k'' hello_json no_messages_request) = []
   \<and> statusCode (fst (chat_stream_handler ''k'' hello_stream no_messages_request)) = 400
   \<and> snd (chat_stream_handler ''k'' hello_stream no_messages_request) = []
   \<and> length (snd (chat_handler ''k'' hello_json hello_request)) = 1
   \<and> length (snd (chat_stream_handler ''k'' hello_stream hello_request)) = 1"
  using
    messages_validation
      [where req = no_messages_request and K = "''k''" and post = hello_json
         and post' = hello_stream and xs = "[]"]
    messages_validation
      [where req = hello_request and K = "''k''" and post = hello_json
         and post' = hello_stream
         and xs = "[JObj [(''role'', JStr ''user''), (''content'', JStr ''Hi'')]]"]
  by (simp add: no_messages_request_def hello_request_def)

text \<open>
  C2 as stated fails for the empty array: it passes the validation of both endpoints, and
  each makes its upstream call.
\<close>

theorem empty_messages_counterexample:
  "map_of (rev (req_body empty_request)) ''messages'' = Some (JArr [])
   \<and> statusCode (fst (chat_handler ''k'' hello_json empty_request)) = 200
   \<and> length (snd (chat_handler ''k'' hello_json empty_request)) = 1
   \<and> statusCode (fst (chat_stream_handler ''k'' hello_stream empty_request)) = 200
   \<and> length (snd (chat_stream_handler ''k'' hello_stream empty_request)) = 1"
  by (simp add: chat_handler_def chat_stream_handler_def empty_request_def invalid_messages_def
      hello_json_def hello_stream_def hello_completion_def chat_result_def res_json_def fresh_def
      sse_headers_def res_setHeader_def res_write_def res_end_def hello_midline_def Let_def)

subsection \<open>An upstream that rejects the call\<close>

text \<open>
  C5. With the upstream answering 429 and \<^verbatim>\<open>{"error":"rate limited"}\<close>, the buffered
  endpoint answers 429 with that error text, and the streaming endpoint answers 500 with
  \<^verbatim>\<open>Internal server error\<close>.
\<close>

theorem upstream_429_responses:
  "statusCode (fst (chat_handler ''k'' limited_json hello_request)) = 429
   \<and> json_bodies (log (fst (chat_handler ''k'' limited_json hello_request)))
       = [error_body ''rate limited'']
   \<and> statusCode (fst (chat_stream_handler ''k'' limited_stream hello_request)) = 500
   \<and> json_bodies (log (fst (chat_stream_handler ''k'' limited_stream hello_request)))
       = [error_body ''Internal server error'']"
  by (simp add: chat_handler_def chat_stream_handler_def hello_request_def invalid_messages_def
      limited_json_def limited_stream_def chat_catch_def stream_catch_def res_json_def
      res_status_def fresh_def sse_headers_def res_setHeader_def error_body_def js_or_def Let_def)

subsection \<open>Piping the upstream stream\<close>

lemma written_append: "written (xs @ ys) = written xs @ written ys"
  by (induction xs rule: written.induct) simp_all

lemma json_bodies_append: "json_bodies (xs @ ys) = json_bodies xs @ json_bodies ys"
  by (induction xs rule: json_bodies.induct) simp_all

lemma on_event_finished: "finished r \<Longrightarrow> on_event ev r = r"
  by (cases ev) (simp_all add: res_write_def res_end_def)

lemma pipe_stream_finished: "finished r \<Longrightarrow> pipe_stream evs r = r"
  by (induction evs) (simp_all add: on_event_finished)

lemma pipe_stream_append: "pipe_stream (evs1 @ evs2) r = pipe_stream evs2 (pipe_stream evs1 r)"
  by (induction evs1 arbitrary: r) simp_all

lemma pipe_stream_log_prefix: "prefix (log r) (log (pipe_stream evs r))"
proof (induction evs arbitrary: r)
  case Nil
  show ?case by simp
next
  case (Cons ev evs)
  have "prefix (log r) (log (on_event ev r))"
    by (cases ev) (simp_all add: res_write_def res_end_def)
  then show ?case
    using Cons [of "on_event ev r"] by (auto intro: prefix_order.trans)
qed

lemma pipe_stream_keeps:
  "statusCode (pipe_stream evs r) = statusCode r
   \<and> res_headers (pipe_stream evs r) = res_headers r
   \<and> json_bodies (log (pipe_stream evs r)) = json_bodies (log r)"
proof (induction evs arbitrary: r)
  case Nil
  show ?case by simp
next
  case (Cons ev evs)
  have "statusCode (on_event ev r) = statusCode r
        \<and> res_headers (on_event ev r) = res_headers r
        \<and> json_bodies (log (on_event ev r)) = json_bodies (log r)"
    by (cases ev) (simp_all add: res_write_def res_end_def json_bodies_append)
  then show ?case
    using Cons [of "on_event ev r"] by simp
qed

lemma pipe_stream_written:
  "\<not> finished r \<Longrightarrow> written (log (pipe_stream evs r)) = written (log r) @ forwarded evs"
proof (induction evs arbitrary: r)
  case Nil
  show ?case by simp
next
  case (Cons ev evs)
  show ?case
  proof (cases ev)
    case (Data chunk)
    have "\<not> finished (res_write chunk r)"
      using Cons.prems by (simp add: res_write_def)
    from Cons.IH [OF this] show ?thesis
      using Data Cons.prems by (simp add: res_write_def written_append)
  next
    case End_of_stream
    have "finished (res_end r)" by (simp add: res_end_def)
    then have "pipe_stream evs (res_end r) = res_end r"
      by (rule pipe_stream_finished)
    then show ?thesis
      using End_of_stream Cons.prems by (simp add: res_end_def written_append)
  next
    case Stream_error
    have "finished (res_end r)" by (simp add: res_end_def)
    then have "pipe_stream evs (res_end r) = res_end r"
      by (rule pipe_stream_finished)
    then show ?thesis
      using Stream_error Cons.prems by (simp add: res_end_def written_append)
  qed
qed

lemma pipe_stream_error_log:
  "\<not> finished r \<Longrightarrow>
   log (pipe_stream (map Data cs @ Stream_error # later) r)
     = log r @ map Write cs @ [End_response]"
proof (induction cs arbitrary: r)
  case Nil
  have "finished (res_end r)" by (simp add: res_end_def)
  then have "pipe_stream later (res_end r) = res_end r"
    by (rule pipe_stream_finished)
  then show ?case using Nil by (simp add: res_end_def)
next
  case (Cons c cs)
  have "\<not> finished (res_write c r)" using Cons.prems by (simp add: res_write_def)
  from Cons.IH [OF this] show ?case using Cons.prems by (simp add: res_write_def)
qed

lemma sse_headers_fresh:
  "log (sse_headers fresh) =
     [SetHeader ''Content-Type'' ''text/event-stream'', SetHeader ''Cache-Control'' ''no-cache'',
      SetHeader ''Connection'' ''keep-alive'']
   \<and> \<not> finished (sse_headers fresh) \<and> \<not> headersSent (sse_headers fresh)
   \<and> statusCode (sse_headers fresh) = 200
   \<and> map_of (res_headers (sse_headers fresh)) ''Content-Type'' = Some ''text/event-stream''
   \<and> map_of (res_headers (sse_headers fresh)) ''Cache-Control'' = Some ''no-cache''
   \<and> map_of (res_headers (sse_headers fresh)) ''Connection'' = Some ''keep-alive''"
  by (simp add: sse_headers_def res_setHeader_def fresh_def)

lemma stream_handler_resolved:
  assumes "map_of (rev (req_body req)) ''messages'' = Some ms" and "is_array ms"
    and "post (build_request K req ms True) = Resolved evs"
  shows "chat_stream_handler K post req
           = (pipe_stream evs (sse_headers fresh), [build_request K req ms True])"
  using assms by (simp add: chat_stream_handler_def invalid_messages_iff Let_def)

lemma hello_stream_log:
  "log (fst (chat_stream_handler ''k'' hello_stream hello_request)) =
     [SetHeader ''Content-Type'' ''text/event-stream'', SetHeader ''Cache-Control'' ''no-cache'',
      SetHeader ''Connection'' ''keep-alive''] @ map Write hello_midline @ [End_response]"
  by (simp add: chat_stream_handler_def hello_request_def invalid_messages_def hello_stream_def
      hello_midline_def sse_headers_def res_setHeader_def res_write_def res_end_def fresh_def
      Let_def)


text \<open>
  C8. Where the upstream stream emits an error after any number of chunks, the streaming
  endpoint has written those chunks and nothing else, and then ends the response: no JSON
  body is sent and the status stays 200. The \<^verbatim>\<open>catch\<close> block, entered with the headers
  already sent, ends the response as well and sends no JSON body.
\<close>

theorem stream_error_closes_sink:
  "(map_of (rev (req_body req)) ''messages'' = Some ms \<and> is_array ms
      \<and> post (build_request K req ms True) = Resolved (map Data cs @ Stream_error # later)
    \<longrightarrow> log (fst (chat_stream_handler K post req))
          = log (sse_headers fresh) @ map Write cs @ [End_response]
        \<and> finished (fst (chat_stream_handler K post req))
        \<and> written (log (fst (chat_stream_handler K post req))) = cs
        \<and> json_bodies (log (fst (chat_stream_handler K post req))) = []
        \<and> statusCode (fst (chat_stream_handler K post req)) = 200)
   \<and> (headersSent r \<longrightarrow>
        finished (stream_catch r)
        \<and> written (log (stream_catch r)) = written (log r)
        \<and> json_bodies (log (stream_catch r)) = json_bodies (log r)
        \<and> statusCode (stream_catch r) = statusCode r)"
proof (intro conjI impI)
  assume a: "map_of (rev (req_body req)) ''messages'' = Some ms \<and> is_array ms
      \<and> post (build_request K req ms True) = Resolved (map Data cs @ Stream_error # later)"
  let ?evs = "map Data cs @ Stream_error # later"
  have h: "fst (chat_stream_handler K post req) = pipe_stream ?evs (sse_headers fresh)"
    using a stream_handler_resolved [of req ms post K ?evs] by simp
  have nf: "\<not> finished (sse_headers fresh)" using sse_headers_fresh by simp
  show l: "log (fst (chat_stream_handler K post req))
          = log (sse_headers fresh) @ map Write cs @ [End_response]"
    using h pipe_stream_error_log [OF nf] by simp
  have "pipe_stream ?evs (sse_headers fresh)
          = pipe_stream later (res_end (pipe_stream (map Data cs) (sse_headers fresh)))"
    by (simp add: pipe_stream_append)
  moreover have "finished (res_end (pipe_stream (map Data cs) (sse_headers fresh)))"
    by (simp add: res_end_def)
  ultimately show "finished (fst (chat_stream_handler K post req))"
    using h by (simp add: pipe_stream_finished)
  show "written (log (fst (chat_stream_handler K post req))) = cs"
    unfolding l using sse_headers_fresh by (simp add: written_append) (induction cs; simp)
  show "json_bodies (log (fst (chat_stream_handler K post req))) = []"
    using h pipe_stream_keeps [of ?evs "sse_headers fresh"] sse_headers_fresh by simp
  show "statusCode (fst (chat_stream_handler K post req)) = 200"
    using h pipe_stream_keeps [of ?evs "sse_headers fresh"] sse_headers_fresh by simp
next
  assume "headersSent r"
  then show "finished (stream_catch r)" by (simp add: stream_catch_def res_end_def)
next
  assume "headersSent r"
  then show "written (log (stream_catch r)) = written (log r)"
    by (simp add: stream_catch_def res_end_def written_append)
next
  assume "headersSent r"
  then show "json_bodies (log (stream_catch r)) = json_bodies (log r)"
    by (simp add: stream_catch_def res_end_def json_bodies_append)
next
  assume "headersSent r"
  then show "statusCode (stream_catch r) = statusCode r"
    by (simp add: stream_catch_def res_end_def)
qed

theorem stream_error_closes_sink_witness:
  "log (fst (chat_stream_handler ''k'' broken_stream hello_request))
     = [SetHeader ''Content-Type'' ''text/event-stream'', SetHeader ''Cache-Control'' ''no-cache'',
        SetHeader ''Connection'' ''keep-alive'', Write ''data: {'', End_response]
   \<and> json_bodies (log (fst (chat_stream_handler ''k'' broken_stream hello_request))) = []
   \<and> json_bodies (log (stream_catch (res_write ''data: {'' (sse_headers fresh)))) = []
   \<and> finished (stream_catch (res_write ''data: {'' (sse_headers fresh)))"
  using
    stream_error_closes_sink
      [where req = hello_request and K = "''k''" and post = broken_stream
         and ms = "JArr [JObj [(''role'', JStr ''user''), (''content'', JStr ''Hi'')]]"
         and cs = "[''data: {'']" and later = "[]"
         and r = "res_write ''data: {'' (sse_headers fresh)"]
    sse_headers_fresh
  by (simp add: hello_request_def broken_stream_def res_write_def json_bodies_append)

lemma sse_before_write:
  assumes "prefix [h1, h2, h3] (pre @ Write c # suf)"
    and "\<forall>c. h1 \<noteq> Write c" "\<forall>c. h2 \<noteq> Write c" "\<forall>c. h3 \<noteq> Write c"
  shows "take 3 pre = [h1, h2, h3]"
proof (cases pre)
  case Nil
  then show ?thesis using assms by simp
next
  case (Cons a p1)
  note c1 = this
  show ?thesis
  proof (cases p1)
    case Nil
    then show ?thesis using assms c1 by simp
  next
    case (Cons b p2)
    note c2 = this
    show ?thesis
    proof (cases p2)
      case Nil
      then show ?thesis using assms c1 c2 by simp
    next
      case (Cons d p3)
      then show ?thesis using assms c1 c2 by simp
    qed
  qed
qed

text \<open>
  C9. In a streaming session whose upstream call resolves, every write to the client comes
  after the three calls that set the content type \<^verbatim>\<open>text/event-stream\<close>, no caching
  and the kept-alive connection: they are the first three actions on the response, and the
  response keeps these headers.
\<close>

theorem headers_before_first_write:
  assumes "map_of (rev (req_body req)) ''messages'' = Some ms" and "is_array ms"
    and "post (build_request K req ms True) = Resolved evs"
    and "log (fst (chat_stream_handler K post req)) = pre @ Write c # suf"
  shows "take 3 pre =
           [SetHeader ''Content-Type'' ''text/event-stream'',
            SetHeader ''Cache-Control'' ''no-cache'',
            SetHeader ''Connection'' ''keep-alive'']
         \<and> map_of (res_headers (fst (chat_stream_handler K post req))) ''Content-Type''
             = Some ''text/event-stream''
         \<and> map_of (res_headers (fst (chat_stream_handler K post req))) ''Cache-Control''
             = Some ''no-cache''
         \<and> map_of (res_headers (fst (chat_stream_handler K post req))) ''Connection''
             = Some ''keep-alive''"
proof -
  have h: "fst (chat_stream_handler K post req) = pipe_stream evs (sse_headers fresh)"
    using assms(1,2,3) by (simp add: stream_handler_resolved)
  have "prefix (log (sse_headers fresh)) (pre @ Write c # suf)"
    using pipe_stream_log_prefix [of "sse_headers fresh" evs] h assms(4) by simp
  then have "take 3 pre =
           [SetHeader ''Content-Type'' ''text/event-stream'',
            SetHeader ''Cache-Control'' ''no-cache'',
            SetHeader ''Connection'' ''keep-alive'']"
    using sse_headers_fresh by (intro sse_before_write [where c = c and suf = suf]) simp_all
  then show ?thesis
    using h pipe_stream_keeps [of evs "sse_headers fresh"] sse_headers_fresh by simp
qed

theorem headers_before_first_write_witness:
  "take 3 [SetHeader ''Content-Type'' ''text/event-stream'', SetHeader ''Cache-Control'' ''no-cache'',
      SetHeader ''Connection'' ''keep-alive''] =
           [SetHeader ''Content-Type'' ''text/event-stream'',
            SetHeader ''Cache-Control'' ''no-cache'',
            SetHeader ''Connection'' ''keep-alive'']
   \<and> map_of (res_headers (fst (chat_stream_handler ''k'' hello_stream hello_request))) ''Content-Type''
             = Some ''text/event-stream''"
  using headers_before_first_write
    [of hello_request "JArr [JObj [(''role'', JStr ''user''), (''content'', JStr ''Hi'')]]"
        hello_stream "''k''" "map Data hello_midline @ [End_of_stream]"
        "[SetHeader ''Content-Type'' ''text/event-stream'', SetHeader ''Cache-Control'' ''no-cache'',
      SetHeader ''Connection'' ''keep-alive'']" "hd hello_midline" "map Write (tl hello_midline) @ [End_response]"]
    hello_stream_log
  by (simp add: hello_request_def hello_stream_def hello_midline_def)

lemma chat_handler_resolved:
  assumes "map_of (rev (req_body req)) ''messages'' = Some ms" and "is_array ms"
    and "post (build_request K req ms False) = Resolved data"
    and "chat_result data (up_model (build_request K req ms False)) = Inr result"
  shows "chat_handler K post req = (res_json result fresh, [build_request K req ms False])"
  using assms by (simp add: chat_handler_def invalid_messages_iff Let_def)

section \<open>Properties of the frame decoders\<close>

subsection \<open>Lines and records\<close>

lemma done_line_iff:
  "(startsWith line ''data: '' \<and> slice line 6 = ''[DONE]'') \<longleftrightarrow> line = ''data: [DONE]''"
proof
  assume a: "startsWith line ''data: '' \<and> slice line 6 = ''[DONE]''"
  have "length ''data: '' = 6" by simp
  then have "take 6 line = ''data: ''"
    using a unfolding startsWith_def by metis
  moreover have "drop 6 line = ''[DONE]''"
    using a by (simp add: slice_def)
  ultimately have "take 6 line @ drop 6 line = ''data: '' @ ''[DONE]''"
    by (rule arg_cong2)
  then show "line = ''data: [DONE]''"
    by simp
next
  assume "line = ''data: [DONE]''"
  then show "startsWith line ''data: '' \<and> slice line 6 = ''[DONE]''"
    by (simp add: startsWith_def slice_def)
qed

lemma data_line: "startsWith (''data: '' @ data) ''data: '' \<and> slice (''data: '' @ data) 6 = data"
  by (simp add: startsWith_def slice_def)

lemma record_step_acc: "record_step parse data fc = fc @ record_step parse data []"
  by (simp add: record_step_def try_record_def append_content_def
      split: option.splits sum.splits)

lemma for_lines_acc: "for_lines parse ls fc = fc @ for_lines parse ls []"
proof (induction ls arbitrary: fc)
  case Nil
  show ?case by simp
next
  case (Cons line ls)
  show ?case
    using Cons [of "record_step parse (slice line 6) fc"] Cons [of "record_step parse (slice line 6) []"]
      Cons [of fc] record_step_acc [of parse "slice line 6" fc]
    by (simp add: Let_def)
qed

lemma for_lines_hook_acc: "for_lines_hook parse ls fc = fc @ for_lines_hook parse ls []"
proof (induction ls arbitrary: fc)
  case Nil
  show ?case by simp
next
  case (Cons line ls)
  show ?case
    using Cons [of "record_step parse (slice line 6) fc"] Cons [of "record_step parse (slice line 6) []"]
      Cons [of fc] record_step_acc [of parse "slice line 6" fc]
    by (simp add: Let_def)
qed

lemma for_lines_append:
  "for_lines parse (ls1 @ ls2) fc =
     (if ''data: [DONE]'' \<in> set ls1 then for_lines parse ls1 fc
      else for_lines parse ls2 (for_lines parse ls1 fc))"
proof (induction ls1 arbitrary: fc)
  case Nil
  show ?case by simp
next
  case (Cons line ls1)
  show ?case
  proof (cases "line = ''data: [DONE]''")
    case True
    then show ?thesis by (simp add: startsWith_def slice_def)
  next
    case False
    then have nd: "\<not> (startsWith line ''data: '' \<and> slice line 6 = ''[DONE]'')"
      by (simp add: done_line_iff)
    show ?thesis
      using False nd Cons by (auto simp: Let_def)
  qed
qed

lemma for_lines_hook_append:
  "for_lines_hook parse (ls1 @ ls2) fc = for_lines_hook parse ls2 (for_lines_hook parse ls1 fc)"
  by (induction ls1 arbitrary: fc) (simp_all add: Let_def)

lemma read_loop_exhausted:
  "read_loop parse src Exhausted st =
     Inr \<lparr>fullContent = fullContent st @ concat (map (chunk_deltas parse) src),
          reads = reads st + length src + 1\<rparr>"
proof (induction src arbitrary: st)
  case Nil
  show ?case by simp
next
  case (Cons chunk src)
  show ?case
    using for_lines_acc [of parse "split_nl (TextDecoder_decode chunk)" "fullContent st"]
    by (simp add: Cons chunk_deltas_def text_deltas_def)
qed

lemma read_loop_hook_exhausted:
  "read_loop_hook parse src Exhausted st =
     Inr \<lparr>fullContent = fullContent st @ concat (map (chunk_deltas_hook parse) src),
          reads = reads st + length src + 1\<rparr>"
proof (induction src arbitrary: st)
  case Nil
  show ?case by simp
next
  case (Cons chunk src)
  show ?case
    using for_lines_hook_acc [of parse "split_nl (TextDecoder_decode chunk)" "fullContent st"]
    by (simp add: Cons chunk_deltas_hook_def text_deltas_hook_def)
qed

lemma chatCompletionStream_exhausted:
  "chatCompletionStream parse src Exhausted =
     Inr \<lparr>fullContent = concat (map (chunk_deltas parse) src), reads = Suc (length src)\<rparr>"
  by (simp add: chatCompletionStream_def read_loop_exhausted)

lemma sendStreamingRequest_exhausted:
  "sendStreamingRequest parse src Exhausted =
     Inr \<lparr>fullContent = concat (map (chunk_deltas_hook parse) src), reads = Suc (length src)\<rparr>"
  by (simp add: sendStreamingRequest_def read_loop_hook_exhausted)

lemma split_from_newline:
  "split_from cur (xs @ CHR 0x0A # ys) = split_from cur xs @ split_from [] ys"
  by (induction xs arbitrary: cur) simp_all

lemma split_nl_newline: "split_nl (xs @ CHR 0x0A # ys) = split_nl xs @ split_nl ys"
  by (simp add: split_nl_def split_from_newline)

lemma split_nl_Nil: "split_nl [] = [[]]"
  by (simp add: split_nl_def)

lemma startsWith_Nil: "\<not> startsWith [] ''data: ''"
  by (simp add: startsWith_def)

lemma text_deltas_terminated:
  "text_deltas parse (xs @ [CHR 0x0A]) = for_lines parse (split_nl xs) []"
  using split_nl_newline [of xs "[]"]
  by (simp add: text_deltas_def split_nl_Nil for_lines_append startsWith_Nil)

lemma text_deltas_hook_terminated:
  "text_deltas_hook parse (xs @ [CHR 0x0A]) = for_lines_hook parse (split_nl xs) []"
  using split_nl_newline [of xs "[]"]
  by (simp add: text_deltas_hook_def split_nl_Nil for_lines_hook_append startsWith_Nil)

lemma for_lines_single:
  "data \<noteq> ''[DONE]'' \<Longrightarrow>
   for_lines parse [''data: '' @ data] fc = record_step parse data fc"
  using data_line [of data] by (simp add: Let_def)

lemma for_lines_hook_single:
  "data \<noteq> ''[DONE]'' \<Longrightarrow>
   for_lines_hook parse [''data: '' @ data] fc = record_step parse data fc"
  using data_line [of data] by (simp add: Let_def)

lemma agent_for_lines_single:
  "data \<noteq> ''[DONE]'' \<Longrightarrow>
   agent_for_lines parse [''data: '' @ data] fc = agent_record_step parse data fc"
  using data_line [of data] by (simp add: Let_def)

subsection \<open>Extraction of the delta text\<close>

lemma record_step_spec:
  "parse data = Some parsed \<Longrightarrow>
   record_step parse data fc = fc @ filter stringifiable (spec_delta content_probes parsed)"
  by (cases parsed)
    (auto simp: record_step_def try_record_def content_of_def append_content_def spec_delta_def
      content_probes_def js_or_def split: option.splits)

lemma agent_record_step_spec:
  "parse data = Some parsed \<Longrightarrow>
   agent_record_step parse data fc
     = fc @ filter stringifiable (spec_delta [[Field ''content'']] parsed)"
  by (cases parsed)
    (auto simp: agent_record_step_def agent_try_record_def agent_content_of_def append_content_def spec_delta_def
      js_or_def split: option.splits)

lemma first_probe_truthy: "first_probe ps v = Some c \<Longrightarrow> truthy c"
  by (induction ps) (auto split: if_splits)

lemma spec_delta_nonempty: "JStr [] \<notin> set (spec_delta ps v)"
  using first_probe_truthy [of ps v "JStr []"]
  by (auto simp: spec_delta_def split: option.splits)

text \<open>
  C6, as amended. For a record that a decoder reaches, whose line begins with
  \<^verbatim>\<open>data: \<close> and whose payload parses, \<^verbatim>\<open>chatCompletionStream\<close> and
  \<^verbatim>\<open>sendStreamingRequest\<close> take what the prioritised probes of the specification give:
  the top-level \<^verbatim>\<open>content\<close> if it is truthy, else \<^verbatim>\<open>choices[0].delta.content\<close> if
  that is truthy, else nothing. \<^verbatim>\<open>agentChatStream\<close> probes the top-level
  \<^verbatim>\<open>content\<close> only. The value taken is appended unless its conversion to a string
  throws. A falsy value is never taken, so an empty string is never appended.
\<close>

theorem content_extraction:
  "(parse data = Some parsed \<and> data \<noteq> ''[DONE]'' \<longrightarrow>
      for_lines parse [''data: '' @ data] fc
        = fc @ filter stringifiable (spec_delta content_probes parsed)
      \<and> for_lines_hook parse [''data: '' @ data] fc
          = fc @ filter stringifiable (spec_delta content_probes parsed)
      \<and> agent_for_lines parse [''data: '' @ data] fc
          = fc @ filter stringifiable (spec_delta [[Field ''content'']] parsed))
   \<and> list_all truthy (spec_delta ps v)
   \<and> JStr [] \<notin> set (spec_delta ps v)"
proof (intro conjI impI)
  assume a: "parse data = Some parsed \<and> data \<noteq> ''[DONE]''"
  then have p: "parse data = Some parsed" and d: "data \<noteq> ''[DONE]''"
    by simp_all
  show "for_lines parse [''data: '' @ data] fc
          = fc @ filter stringifiable (spec_delta content_probes parsed)"
    by (simp only: for_lines_single [OF d] record_step_spec [of parse data parsed, OF p])
  show "for_lines_hook parse [''data: '' @ data] fc
          = fc @ filter stringifiable (spec_delta content_probes parsed)"
    by (simp only: for_lines_hook_single [OF d] record_step_spec [of parse data parsed, OF p])
  show "agent_for_lines parse [''data: '' @ data] fc
          = fc @ filter stringifiable (spec_delta [[Field ''content'']] parsed)"
    by (simp only: agent_for_lines_single [OF d]
        agent_record_step_spec [of parse data parsed, OF p])
next
  show "list_all truthy (spec_delta ps v)"
    using first_probe_truthy [of ps v]
    by (auto simp: spec_delta_def split: option.splits)
next
  show "JStr [] \<notin> set (spec_delta ps v)"
    by (rule spec_delta_nonempty)
qed

lemma fallback_parsed:
  \<open>json_parse ''{"content":"","choices":[{"delta":{"content":"x"}}]}''
     = Some (JObj [(''content'', JStr ''''),
          (''choices'', JArr [JObj [(''delta'', JObj [(''content'', JStr ''x'')])]])])\<close>
  by code_simp

text \<open>
  A record with an empty top-level \<^verbatim>\<open>content\<close> and a text under
  \<^verbatim>\<open>choices[0].delta.content\<close>.
\<close>

theorem content_extraction_witness:
  \<open>for_lines json_parse
       [''data: '' @ ''{"content":"","choices":[{"delta":{"content":"x"}}]}''] []
      = [JStr ''x'']
   \<and> for_lines_hook json_parse
       [''data: '' @ ''{"content":"","choices":[{"delta":{"content":"x"}}]}''] []
      = [JStr ''x'']
   \<and> agent_for_lines json_parse
       [''data: '' @ ''{"content":"","choices":[{"delta":{"content":"x"}}]}''] []
      = []\<close>
  using content_extraction
    [where parse = json_parse
       and data = \<open>''{"content":"","choices":[{"delta":{"content":"x"}}]}''\<close>
       and parsed = "JObj [(''content'', JStr ''''),
          (''choices'', JArr [JObj [(''delta'', JObj [(''content'', JStr ''x'')])]])]"
       and fc = "[]"]
    fallback_parsed
  by (simp add: spec_delta_def content_probes_def)

text \<open>
  C6 as stated fails twice. A record with its text under \<^verbatim>\<open>choices[0].delta.content\<close>
  gives a delta in \<^verbatim>\<open>chatCompletionStream\<close> and none in \<^verbatim>\<open>agentChatStream\<close>. And a
  record whose \<^verbatim>\<open>content\<close> is the empty array, a truthy value with the empty string as
  its text, is appended by all three decoders; a \<^verbatim>\<open>content\<close> whose conversion throws
  is skipped.
\<close>

theorem agent_nested_content_counterexample:
  \<open>chatCompletionStream json_parse
       [record_line ''data: {"choices":[{"delta":{"content":"x"}}]}''] Exhausted
     = Inr \<lparr>fullContent = [JStr ''x''], reads = 2\<rparr>
   \<and> agentChatStream json_parse
       [record_line ''data: {"choices":[{"delta":{"content":"x"}}]}''] Exhausted
     = Inr \<lparr>fullContent = [], reads = 2\<rparr>
   \<and> empty_text (JArr [])
   \<and> chatCompletionStream json_parse [record_line ''data: {"content":[]}''] Exhausted
     = Inr \<lparr>fullContent = [JArr []], reads = 2\<rparr>
   \<and> sendStreamingRequest json_parse [record_line ''data: {"content":[]}''] Exhausted
     = Inr \<lparr>fullContent = [JArr []], reads = 2\<rparr>
   \<and> agentChatStream json_parse [record_line ''data: {"content":[]}''] Exhausted
     = Inr \<lparr>fullContent = [JArr []], reads = 2\<rparr>
   \<and> chatCompletionStream json_parse
       [record_line ''data: {"content":{"toString":1}}''] Exhausted
     = Inr \<lparr>fullContent = [], reads = 2\<rparr>\<close>
  by code_simp

subsection \<open>Malformed records\<close>

lemma record_step_malformed: "parse data = None \<Longrightarrow> record_step parse data fc = fc"
  by (simp add: record_step_def try_record_def)

lemma for_lines_malformed:
  assumes "parse data = None" and "data \<noteq> ''[DONE]''"
  shows "for_lines parse ((''data: '' @ data) # post) fc = for_lines parse post fc"
  using assms data_line [of data] by (simp add: Let_def record_step_malformed)

lemma for_lines_hook_malformed:
  assumes "parse data = None" and "data \<noteq> ''[DONE]''"
  shows "for_lines_hook parse ((''data: '' @ data) # post) fc = for_lines_hook parse post fc"
  using assms data_line [of data] by (simp add: Let_def record_step_malformed)

text \<open>
  C7. A record whose payload does not parse is skipped: the lines of its chunk give the same
  content with the record as without it, in \<^verbatim>\<open>chatCompletionStream\<close> and in
  \<^verbatim>\<open>sendStreamingRequest\<close>. Over a byte source that ends normally each decoder returns,
  whatever the records are, with the deltas of every chunk in order.
\<close>

theorem malformed_record_skipped:
  "(parse data = None \<and> data \<noteq> ''[DONE]'' \<longrightarrow>
      for_lines parse (pre @ (''data: '' @ data) # post) fc = for_lines parse (pre @ post) fc
      \<and> for_lines_hook parse (pre @ (''data: '' @ data) # post) fc
          = for_lines_hook parse (pre @ post) fc)
   \<and> chatCompletionStream parse src Exhausted
       = Inr \<lparr>fullContent = concat (map (chunk_deltas parse) src), reads = Suc (length src)\<rparr>
   \<and> sendStreamingRequest parse src Exhausted
       = Inr \<lparr>fullContent = concat (map (chunk_deltas_hook parse) src),
              reads = Suc (length src)\<rparr>"
proof (intro conjI impI)
  assume a: "parse data = None \<and> data \<noteq> ''[DONE]''"
  show "for_lines parse (pre @ (''data: '' @ data) # post) fc = for_lines parse (pre @ post) fc"
    using a for_lines_malformed [of parse data post]
    by (simp add: for_lines_append [of parse pre])
  show "for_lines_hook parse (pre @ (''data: '' @ data) # post) fc
          = for_lines_hook parse (pre @ post) fc"
    using a for_lines_hook_malformed [of parse data post]
    by (simp add: for_lines_hook_append [of parse pre])
next
  show "chatCompletionStream parse src Exhausted
       = Inr \<lparr>fullContent = concat (map (chunk_deltas parse) src), reads = Suc (length src)\<rparr>"
    by (rule chatCompletionStream_exhausted)
next
  show "sendStreamingRequest parse src Exhausted
       = Inr \<lparr>fullContent = concat (map (chunk_deltas_hook parse) src),
              reads = Suc (length src)\<rparr>"
    by (rule sendStreamingRequest_exhausted)
qed

lemma not_json: "json_parse ''{not json'' = None"
  by code_simp

lemma ok_deltas:
  \<open>for_lines json_parse ([] @ [''data: {"content":"ok"}'', '''']) [] = [JStr ''ok'']
   \<and> for_lines_hook json_parse ([] @ [''data: {"content":"ok"}'', '''']) [] = [JStr ''ok'']\<close>
  by code_simp

lemma malformed_then_valid:
  \<open>chatCompletionStream json_parse
       [record_line ''data: {not json'' @ record_line ''data: {"content":"ok"}''] Exhausted
     = Inr \<lparr>fullContent = [JStr ''ok''], reads = 2\<rparr>
   \<and> sendStreamingRequest json_parse
       [record_line ''data: {not json'' @ record_line ''data: {"content":"ok"}''] Exhausted
     = Inr \<lparr>fullContent = [JStr ''ok''], reads = 2\<rparr>\<close>
  by code_simp

text \<open>
  The malformed line \<^verbatim>\<open>data: {not json\<close> followed by a valid delta: the delta is
  delivered and the session returns.
\<close>

theorem malformed_record_skipped_witness:
  \<open>json_parse ''{not json'' = None
   \<and> for_lines json_parse
       ([] @ (''data: '' @ ''{not json'') # [''data: {"content":"ok"}'', '''']) []
     = [JStr ''ok'']
   \<and> for_lines_hook json_parse
       ([] @ (''data: '' @ ''{not json'') # [''data: {"content":"ok"}'', '''']) []
     = [JStr ''ok'']
   \<and> chatCompletionStream json_parse
       [record_line ''data: {not json'' @ record_line ''data: {"content":"ok"}''] Exhausted
     = Inr \<lparr>fullContent = [JStr ''ok''], reads = 2\<rparr>
   \<and> sendStreamingRequest json_parse
       [record_line ''data: {not json'' @ record_line ''data: {"content":"ok"}''] Exhausted
     = Inr \<lparr>fullContent = [JStr ''ok''], reads = 2\<rparr>\<close>
  using malformed_record_skipped
    [where parse = json_parse and data = "''{not json''" and pre = "[]"
       and post = \<open>[''data: {"content":"ok"}'', '''']\<close> and fc = "[]"]
    not_json ok_deltas malformed_then_valid
  by simp

subsection \<open>The end sentinel\<close>

text \<open>
  C4, as amended. At the sentinel \<^verbatim>\<open>chatCompletionStream\<close> leaves the lines of the
  current chunk: the sentinel and the lines after it in that chunk give no delta.
  \<^verbatim>\<open>sendStreamingRequest\<close> skips the sentinel line only. Neither stops reading: the loop
  reads until the byte source is exhausted, one read more than there are chunks, and every
  chunk is decoded.
\<close>

theorem done_sentinel_handling:
  "for_lines parse (pre @ ''data: [DONE]'' # post) fc = for_lines parse pre fc
   \<and> for_lines_hook parse (pre @ ''data: [DONE]'' # post) fc
       = for_lines_hook parse (pre @ post) fc
   \<and> chatCompletionStream parse src Exhausted
       = Inr \<lparr>fullContent = concat (map (chunk_deltas parse) src), reads = Suc (length src)\<rparr>
   \<and> sendStreamingRequest parse src Exhausted
       = Inr \<lparr>fullContent = concat (map (chunk_deltas_hook parse) src),
              reads = Suc (length src)\<rparr>"
proof (intro conjI)
  have d: "for_lines parse (''data: [DONE]'' # post) (for_lines parse pre fc) = for_lines parse pre fc"
    by (simp add: startsWith_def slice_def)
  show "for_lines parse (pre @ ''data: [DONE]'' # post) fc = for_lines parse pre fc"
    using d by (simp add: for_lines_append [of parse pre])
  have "for_lines_hook parse (''data: [DONE]'' # post) (for_lines_hook parse pre fc)
          = for_lines_hook parse post (for_lines_hook parse pre fc)"
    by (simp add: startsWith_def slice_def)
  then show "for_lines_hook parse (pre @ ''data: [DONE]'' # post) fc
       = for_lines_hook parse (pre @ post) fc"
    by (simp add: for_lines_hook_append [of parse pre])
  show "chatCompletionStream parse src Exhausted
       = Inr \<lparr>fullContent = concat (map (chunk_deltas parse) src), reads = Suc (length src)\<rparr>"
    by (rule chatCompletionStream_exhausted)
  show "sendStreamingRequest parse src Exhausted
       = Inr \<lparr>fullContent = concat (map (chunk_deltas_hook parse) src),
              reads = Suc (length src)\<rparr>"
    by (rule sendStreamingRequest_exhausted)
qed

text \<open>
  C4 as stated fails: a record in a chunk after the sentinel is still emitted, and a record
  after the sentinel in the same chunk is emitted by \<^verbatim>\<open>sendStreamingRequest\<close>; after the
  chunk that holds the sentinel the source is read again.
\<close>

theorem done_sentinel_counterexample:
  \<open>chatCompletionStream json_parse
       [record_line ''data: [DONE]'', record_line ''data: {"content":"late"}''] Exhausted
     = Inr \<lparr>fullContent = [JStr ''late''], reads = 3\<rparr>
   \<and> sendStreamingRequest json_parse
       [record_line ''data: [DONE]'' @ record_line ''data: {"content":"late"}''] Exhausted
     = Inr \<lparr>fullContent = [JStr ''late''], reads = 2\<rparr>
   \<and> chatCompletionStream json_parse hello_records Exhausted
     = Inr \<lparr>fullContent = [JStr ''Hel'', JStr ''lo''], reads = 4\<rparr>\<close>
  by code_simp

subsection \<open>Chunk boundaries\<close>

lemma aligned_deltas:
  assumes "\<forall>c\<in>set cs. c \<noteq> [] \<and> last c = CHR 0x0A"
    and "\<forall>c\<in>set (butlast cs). ''data: [DONE]'' \<notin> set (split_nl c)"
  shows "for_lines parse (split_nl (concat cs)) fc = fc @ concat (map (text_deltas parse) cs)"
  using assms
proof (induction cs arbitrary: fc)
  case Nil
  show ?case by (simp add: split_nl_Nil startsWith_Nil)
next
  case (Cons c cs)
  from Cons.prems(1) have c: "c = butlast c @ [CHR 0x0A]"
    by (metis append_butlast_last_id list.set_intros(1))
  define xs where "xs = butlast c"
  have cx: "c = xs @ [CHR 0x0A]" using c xs_def by simp
  have sp: "split_nl (concat (c # cs)) = split_nl xs @ split_nl (concat cs)"
    using split_nl_newline [of xs "concat cs"] cx by simp
  have cd: "text_deltas parse c = for_lines parse (split_nl xs) []"
    using text_deltas_terminated [of parse xs] cx by simp
  show ?case
  proof (cases "cs = []")
    case True
    then show ?thesis
      using sp cd for_lines_acc [of parse "split_nl xs" fc]
      by (simp add: split_nl_Nil for_lines_append startsWith_Nil)
  next
    case False
    then have "c \<in> set (butlast (c # cs))" by simp
    with Cons.prems(2) have "''data: [DONE]'' \<notin> set (split_nl c)" by blast
    then have nd: "''data: [DONE]'' \<notin> set (split_nl xs)"
      using split_nl_newline [of xs "[]"] cx by simp
    have p1: "\<forall>c\<in>set cs. c \<noteq> [] \<and> last c = CHR 0x0A"
      using Cons.prems(1) by simp
    have p2: "\<forall>c\<in>set (butlast cs). ''data: [DONE]'' \<notin> set (split_nl c)"
      using Cons.prems(2) False by simp
    have "for_lines parse (split_nl (concat (c # cs))) fc
            = for_lines parse (split_nl (concat cs)) (for_lines parse (split_nl xs) fc)"
      using sp nd by (simp add: for_lines_append)
    also have "\<dots> = for_lines parse (split_nl xs) fc @ concat (map (text_deltas parse) cs)"
      by (rule Cons.IH [OF p1 p2])
    also have "\<dots> = fc @ concat (map (text_deltas parse) (c # cs))"
      using cd for_lines_acc [of parse "split_nl xs" fc] by simp
    finally show ?thesis .
  qed
qed

lemma aligned_deltas_hook:
  assumes "\<forall>c\<in>set cs. c \<noteq> [] \<and> last c = CHR 0x0A"
  shows "for_lines_hook parse (split_nl (concat cs)) fc
           = fc @ concat (map (text_deltas_hook parse) cs)"
  using assms
proof (induction cs arbitrary: fc)
  case Nil
  show ?case by (simp add: split_nl_Nil startsWith_Nil)
next
  case (Cons c cs)
  from Cons.prems have c: "c = butlast c @ [CHR 0x0A]"
    by (metis append_butlast_last_id list.set_intros(1))
  define xs where "xs = butlast c"
  have cx: "c = xs @ [CHR 0x0A]" using c xs_def by simp
  have sp: "split_nl (concat (c # cs)) = split_nl xs @ split_nl (concat cs)"
    using split_nl_newline [of xs "concat cs"] cx by simp
  have cd: "text_deltas_hook parse c = for_lines_hook parse (split_nl xs) []"
    using text_deltas_hook_terminated [of parse xs] cx by simp
  have p1: "\<forall>c\<in>set cs. c \<noteq> [] \<and> last c = CHR 0x0A"
    using Cons.prems by simp
  have "for_lines_hook parse (split_nl (concat (c # cs))) fc
          = for_lines_hook parse (split_nl (concat cs)) (for_lines_hook parse (split_nl xs) fc)"
    using sp by (simp add: for_lines_hook_append)
  also have "\<dots> = for_lines_hook parse (split_nl xs) fc
                      @ concat (map (text_deltas_hook parse) cs)"
    by (rule Cons.IH [OF p1])
  also have "\<dots> = fc @ concat (map (text_deltas_hook parse) (c # cs))"
    using cd for_lines_hook_acc [of parse "split_nl xs" fc] by simp
  finally show ?case .
qed

text \<open>Decoding the bytes: a newline ends every pending sequence.\<close>

lemma newline_bytes:
  "byte_in 0 127 (CHR 0x0A)" "\<not> byte_in 128 191 (CHR 0x0A)"
  "\<not> byte_in (second_lower b) (second_upper b) (CHR 0x0A)"
  by (simp_all add: byte_in_def second_lower_def)

lemma utf8_head_newline:
  "utf8_head b (bs @ CHR 0x0A # ys)
     = (fst (utf8_head b bs), snd (utf8_head b bs) @ CHR 0x0A # ys)"
  by (auto simp: utf8_head_def newline_bytes split: list.splits)

lemma utf8_sanitize_newline:
  "utf8_sanitize (xs @ CHR 0x0A # ys) = utf8_sanitize xs @ CHR 0x0A # utf8_sanitize ys"
proof (induction xs rule: utf8_sanitize.induct)
  case 1
  show ?case by (simp add: utf8_head_def newline_bytes)
next
  case (2 b bs)
  then show ?case by (simp add: utf8_head_newline)
qed

lemma utf8_head_fst_cases:
  "fst (utf8_head b bs) = replacement \<or> (\<exists>t. fst (utf8_head b bs) = b # t)"
  by (auto simp: utf8_head_def split: list.splits)

lemma byte_in_EF:
  "\<not> byte_in 0 127 (CHR 0xEF)" "\<not> byte_in 194 223 (CHR 0xEF)" "byte_in 224 239 (CHR 0xEF)"
  by (simp_all add: byte_in_def)

lemma utf8_head_EF:
  "fst (utf8_head (CHR 0xEF) bs) = replacement
   \<or> (\<exists>c d r. bs = c # d # r \<and> fst (utf8_head (CHR 0xEF) bs) = [CHR 0xEF, c, d])"
  by (auto simp: utf8_head_def byte_in_EF split: list.splits)

lemma replacement_not_bom: "take 3 (replacement @ zs) \<noteq> byte_order_mark"
  by (simp add: replacement_def byte_order_mark_def)

lemma utf8_head_not_bom:
  assumes "take 3 (b # bs) \<noteq> byte_order_mark"
  shows "take 3 (fst (utf8_head b bs) @ zs) \<noteq> byte_order_mark"
proof (cases "b = CHR 0xEF")
  case True
  from utf8_head_EF [of bs] show ?thesis
  proof
    assume "fst (utf8_head (CHR 0xEF) bs) = replacement"
    then show ?thesis using True replacement_not_bom by simp
  next
    assume "\<exists>c d r. bs = c # d # r \<and> fst (utf8_head (CHR 0xEF) bs) = [CHR 0xEF, c, d]"
    then obtain c d r
      where "bs = c # d # r" and "fst (utf8_head (CHR 0xEF) bs) = [CHR 0xEF, c, d]"
      by blast
    then show ?thesis using True assms by simp
  qed
next
  case False
  from utf8_head_fst_cases [of b bs] show ?thesis
  proof
    assume "fst (utf8_head b bs) = replacement"
    then show ?thesis using replacement_not_bom by simp
  next
    assume "\<exists>t. fst (utf8_head b bs) = b # t"
    then obtain t where "fst (utf8_head b bs) = b # t" by blast
    then show ?thesis using False by (simp add: byte_order_mark_def)
  qed
qed

lemma decode_without_bom:
  assumes "take 3 bytes \<noteq> byte_order_mark"
  shows "TextDecoder_decode bytes = utf8_sanitize bytes"
proof (cases bytes)
  case Nil
  then show ?thesis by (simp add: TextDecoder_decode_def strip_bom_def byte_order_mark_def)
next
  case (Cons b bs)
  then show ?thesis
    using assms utf8_head_not_bom [of b bs "utf8_sanitize (snd (utf8_head b bs))"]
    by (simp add: TextDecoder_decode_def strip_bom_def)
qed

lemma strip_bom_terminated:
  "strip_bom ((xs @ [CHR 0x0A]) @ ys) = strip_bom (xs @ [CHR 0x0A]) @ ys
   \<and> strip_bom (xs @ [CHR 0x0A]) \<noteq> []
   \<and> last (strip_bom (xs @ [CHR 0x0A])) = CHR 0x0A"
proof (cases "3 \<le> length xs")
  case True
  then show ?thesis by (simp add: strip_bom_def)
next
  case False
  then have "length xs = 0 \<or> length xs = 1 \<or> length xs = 2" by arith
  then have "CHR 0x0A \<in> set (take 3 (xs @ [CHR 0x0A] @ ys))
             \<and> CHR 0x0A \<in> set (take 3 (xs @ [CHR 0x0A]))"
    by (cases xs; cases "tl xs") auto
  moreover have "\<And>zs. CHR 0x0A \<in> set zs \<Longrightarrow> zs \<noteq> byte_order_mark"
    by (auto simp: byte_order_mark_def)
  ultimately have "take 3 (xs @ [CHR 0x0A] @ ys) \<noteq> byte_order_mark
             \<and> take 3 (xs @ [CHR 0x0A]) \<noteq> byte_order_mark"
    by blast
  then show ?thesis by (simp add: strip_bom_def)
qed

lemma decode_terminated:
  assumes "c \<noteq> []" and "last c = CHR 0x0A"
  shows "TextDecoder_decode (c @ ys) = TextDecoder_decode c @ utf8_sanitize ys
         \<and> TextDecoder_decode c \<noteq> [] \<and> last (TextDecoder_decode c) = CHR 0x0A"
proof -
  have c: "c = butlast c @ [CHR 0x0A]"
    using assms by (metis append_butlast_last_id)
  define xs where "xs = butlast c"
  have s1: "utf8_sanitize (c @ ys) = (utf8_sanitize xs @ [CHR 0x0A]) @ utf8_sanitize ys"
    using utf8_sanitize_newline [of xs ys] c xs_def by (metis append.assoc append_Cons append_Nil)
  have s2: "utf8_sanitize c = utf8_sanitize xs @ [CHR 0x0A]"
    using utf8_sanitize_newline [of xs "[]"] c xs_def by simp
  show ?thesis
    using strip_bom_terminated [of "utf8_sanitize xs" "utf8_sanitize ys"] s1 s2
    by (simp add: TextDecoder_decode_def)
qed

lemma sanitize_concat:
  assumes "\<forall>c\<in>set cs. c \<noteq> [] \<and> last c = CHR 0x0A"
    and "\<forall>c\<in>set cs. take 3 c \<noteq> byte_order_mark"
  shows "utf8_sanitize (concat cs) = concat (map TextDecoder_decode cs)"
  using assms
proof (induction cs)
  case Nil
  show ?case by simp
next
  case (Cons c cs)
  have c: "c = butlast c @ [CHR 0x0A]"
    using Cons.prems(1) by (metis append_butlast_last_id list.set_intros(1))
  define xs where "xs = butlast c"
  have "utf8_sanitize (c @ concat cs) = utf8_sanitize c @ utf8_sanitize (concat cs)"
    using utf8_sanitize_newline [of xs "concat cs"] utf8_sanitize_newline [of xs "[]"] c xs_def
    by (metis append.assoc append_Cons append_Nil utf8_sanitize.simps(1))
  moreover have "TextDecoder_decode c = utf8_sanitize c"
    using Cons.prems(2) by (simp add: decode_without_bom)
  ultimately show ?case
    using Cons by simp
qed

lemma decode_concat:
  assumes "\<forall>c\<in>set cs. c \<noteq> [] \<and> last c = CHR 0x0A"
    and "\<forall>c\<in>set (tl cs). take 3 c \<noteq> byte_order_mark"
  shows "TextDecoder_decode (concat cs) = concat (map TextDecoder_decode cs)"
proof (cases cs)
  case Nil
  then show ?thesis
    by (simp add: TextDecoder_decode_def strip_bom_def byte_order_mark_def)
next
  case (Cons c rest)
  have "TextDecoder_decode (c @ concat rest) = TextDecoder_decode c @ utf8_sanitize (concat rest)"
    using decode_terminated [of c "concat rest"] assms(1) Cons by simp
  moreover have "utf8_sanitize (concat rest) = concat (map TextDecoder_decode rest)"
    using assms Cons by (intro sanitize_concat) simp_all
  ultimately show ?thesis
    using Cons by simp
qed

lemma decoded_chunks_aligned:
  assumes "\<forall>c\<in>set cs. c \<noteq> [] \<and> last c = CHR 0x0A"
  shows "\<forall>t\<in>set (map TextDecoder_decode cs). t \<noteq> [] \<and> last t = CHR 0x0A"
  using assms decode_terminated [of _ "[]"] by auto

text \<open>
  C3, as amended. The decoders keep no buffer between reads: the bytes of each read are
  decoded and split at their newlines on their own. Where every chunk ends with a newline,
  no chunk after the first begins with a byte order mark and, for
  \<^verbatim>\<open>chatCompletionStream\<close>, no chunk but the last holds the sentinel, the deltas are those
  of the whole stream read as one chunk, however the records are grouped into chunks. The
  stream of the example, read record by record or as one chunk, gives the two deltas
  \<^verbatim>\<open>Hel\<close> and \<^verbatim>\<open>lo\<close>.
\<close>

theorem record_aligned_chunks:
  "((\<forall>c\<in>set cs. c \<noteq> [] \<and> last c = CHR 0x0A)
      \<and> (\<forall>c\<in>set (tl cs). take 3 c \<noteq> byte_order_mark)
      \<and> (\<forall>c\<in>set (butlast cs). ''data: [DONE]'' \<notin> set (split_nl (TextDecoder_decode c)))
    \<longrightarrow> chatCompletionStream parse cs Exhausted
          = Inr \<lparr>fullContent = chunk_deltas parse (concat cs), reads = Suc (length cs)\<rparr>)
   \<and> ((\<forall>c\<in>set cs. c \<noteq> [] \<and> last c = CHR 0x0A)
      \<and> (\<forall>c\<in>set (tl cs). take 3 c \<noteq> byte_order_mark)
    \<longrightarrow> sendStreamingRequest parse cs Exhausted
          = Inr \<lparr>fullContent = chunk_deltas_hook parse (concat cs), reads = Suc (length cs)\<rparr>)
   \<and> chatCompletionStream parse [concat cs] Exhausted
          = Inr \<lparr>fullContent = chunk_deltas parse (concat cs), reads = 2\<rparr>
   \<and> sendStreamingRequest parse [concat cs] Exhausted
          = Inr \<lparr>fullContent = chunk_deltas_hook parse (concat cs), reads = 2\<rparr>"
proof (intro conjI impI)
  assume a: "(\<forall>c\<in>set cs. c \<noteq> [] \<and> last c = CHR 0x0A)
      \<and> (\<forall>c\<in>set (tl cs). take 3 c \<noteq> byte_order_mark)
      \<and> (\<forall>c\<in>set (butlast cs). ''data: [DONE]'' \<notin> set (split_nl (TextDecoder_decode c)))"
  let ?ts = "map TextDecoder_decode cs"
  have d: "TextDecoder_decode (concat cs) = concat ?ts"
    using a by (intro decode_concat) simp_all
  have t1: "\<forall>t\<in>set ?ts. t \<noteq> [] \<and> last t = CHR 0x0A"
    using a by (intro decoded_chunks_aligned) simp
  have t2: "\<forall>t\<in>set (butlast ?ts). ''data: [DONE]'' \<notin> set (split_nl t)"
    using a by (simp add: map_butlast [symmetric])
  have "for_lines parse (split_nl (concat ?ts)) [] = [] @ concat (map (text_deltas parse) ?ts)"
    by (rule aligned_deltas [OF t1 t2])
  then have "text_deltas parse (concat ?ts) = concat (map (text_deltas parse) ?ts)"
    by (simp add: text_deltas_def)
  moreover have "map (text_deltas parse) ?ts = map (chunk_deltas parse) cs"
    by (simp add: chunk_deltas_def)
  ultimately have "chunk_deltas parse (concat cs) = concat (map (chunk_deltas parse) cs)"
    using d by (simp only: chunk_deltas_def)
  then show "chatCompletionStream parse cs Exhausted
          = Inr \<lparr>fullContent = chunk_deltas parse (concat cs), reads = Suc (length cs)\<rparr>"
    by (simp add: chatCompletionStream_exhausted)
next
  assume a: "(\<forall>c\<in>set cs. c \<noteq> [] \<and> last c = CHR 0x0A)
      \<and> (\<forall>c\<in>set (tl cs). take 3 c \<noteq> byte_order_mark)"
  let ?ts = "map TextDecoder_decode cs"
  have d: "TextDecoder_decode (concat cs) = concat ?ts"
    using a by (intro decode_concat) simp_all
  have t1: "\<forall>t\<in>set ?ts. t \<noteq> [] \<and> last t = CHR 0x0A"
    using a by (intro decoded_chunks_aligned) simp
  have "for_lines_hook parse (split_nl (concat ?ts)) []
          = [] @ concat (map (text_deltas_hook parse) ?ts)"
    by (rule aligned_deltas_hook [OF t1])
  then have "text_deltas_hook parse (concat ?ts) = concat (map (text_deltas_hook parse) ?ts)"
    by (simp add: text_deltas_hook_def)
  moreover have "map (text_deltas_hook parse) ?ts = map (chunk_deltas_hook parse) cs"
    by (simp add: chunk_deltas_hook_def)
  ultimately have "chunk_deltas_hook parse (concat cs)
                     = concat (map (chunk_deltas_hook parse) cs)"
    using d by (simp only: chunk_deltas_hook_def)
  then show "sendStreamingRequest parse cs Exhausted
          = Inr \<lparr>fullContent = chunk_deltas_hook parse (concat cs), reads = Suc (length cs)\<rparr>"
    by (simp add: sendStreamingRequest_exhausted)
next
  show "chatCompletionStream parse [concat cs] Exhausted
          = Inr \<lparr>fullContent = chunk_deltas parse (concat cs), reads = 2\<rparr>"
    by (simp add: chatCompletionStream_exhausted)
next
  show "sendStreamingRequest parse [concat cs] Exhausted
          = Inr \<lparr>fullContent = chunk_deltas_hook parse (concat cs), reads = 2\<rparr>"
    by (simp add: sendStreamingRequest_exhausted)
qed

lemma hello_records_aligned:
  "(\<forall>c\<in>set hello_records. c \<noteq> [] \<and> last c = CHR 0x0A)
   \<and> (\<forall>c\<in>set (tl hello_records). take 3 c \<noteq> byte_order_mark)
   \<and> (\<forall>c\<in>set (butlast hello_records).
        ''data: [DONE]'' \<notin> set (split_nl (TextDecoder_decode c)))"
  by code_simp

lemma hello_whole_deltas:
  "chunk_deltas json_parse hello_whole = [JStr ''Hel'', JStr ''lo'']"
  by code_simp

lemma hello_whole_deltas_hook:
  "chunk_deltas_hook json_parse hello_whole = [JStr ''Hel'', JStr ''lo'']"
  by code_simp

lemma concat_hello_records: "concat hello_records = hello_whole"
  by (simp add: hello_records_def hello_whole_def)

theorem record_aligned_chunks_witness:
  "chatCompletionStream json_parse hello_records Exhausted
     = Inr \<lparr>fullContent = [JStr ''Hel'', JStr ''lo''], reads = 4\<rparr>
   \<and> sendStreamingRequest json_parse hello_records Exhausted
     = Inr \<lparr>fullContent = [JStr ''Hel'', JStr ''lo''], reads = 4\<rparr>
   \<and> chatCompletionStream json_parse [hello_whole] Exhausted
     = Inr \<lparr>fullContent = [JStr ''Hel'', JStr ''lo''], reads = 2\<rparr>"
  using record_aligned_chunks [of hello_records json_parse] hello_records_aligned
    hello_whole_deltas hello_whole_deltas_hook concat_hello_records
  by (simp add: hello_records_def)

text \<open>
  A byte order mark at the start of a later chunk is dropped when the chunk is read on its
  own and kept, inside a line, when the stream is read as one chunk.
\<close>

lemma byte_order_mark_chunk:
  \<open>chatCompletionStream json_parse
       [record_line ''data: {"content":"a"}'',
        byte_order_mark @ record_line ''data: {"content":"b"}''] Exhausted
     = Inr \<lparr>fullContent = [JStr ''a'', JStr ''b''], reads = 3\<rparr>
   \<and> chatCompletionStream json_parse
       [record_line ''data: {"content":"a"}''
          @ byte_order_mark @ record_line ''data: {"content":"b"}''] Exhausted
     = Inr \<lparr>fullContent = [JStr ''a''], reads = 2\<rparr>\<close>
  by code_simp

text \<open>
  C3 as stated fails: the stream of the example with a chunk boundary inside the first
  record loses the delta \<^verbatim>\<open>Hel\<close>.
\<close>

theorem midline_chunks_counterexample:
  "concat hello_midline = concat hello_records
   \<and> chatCompletionStream json_parse hello_records Exhausted
       = Inr \<lparr>fullContent = [JStr ''Hel'', JStr ''lo''], reads = 4\<rparr>
   \<and> chatCompletionStream json_parse hello_midline Exhausted
       = Inr \<lparr>fullContent = [JStr ''lo''], reads = 3\<rparr>
   \<and> sendStreamingRequest json_parse hello_midline Exhausted
       = Inr \<lparr>fullContent = [JStr ''lo''], reads = 3\<rparr>"
  by code_simp

section \<open>The streaming path against the buffered path\<close>

lemma opt_prop_Some:
  "opt_prop v k = Some x \<Longrightarrow> strict_prop v k = Inr (Some x)"
  by (cases v; cases "the v") simp_all

lemma opt_index0_Some:
  "opt_index0 v = Some x \<Longrightarrow> index0 v = Inr (Some x)"
  by (cases v; cases "the v") simp_all

lemma opt_prop_defined: "opt_prop v k = Some x \<Longrightarrow> v \<noteq> None"
  by (cases v) simp_all

lemma opt_index0_defined: "opt_index0 v = Some x \<Longrightarrow> v \<noteq> None"
  by (cases v) simp_all

lemma completion_content:
  assumes "probe_path completion_path (Some data) = Some (JStr s)"
  shows "\<exists>result. chat_result data model = Inr result
           \<and> get_field result ''content'' = Some (JStr s)"
proof -
  have p: "opt_prop (opt_prop (opt_index0 (opt_prop (Some data) ''choices'')) ''message'')
             ''content'' = Some (JStr s)"
    using assms by (simp add: completion_path_def)
  then obtain message
    where m: "opt_prop (opt_index0 (opt_prop (Some data) ''choices'')) ''message'' = Some message"
    using opt_prop_defined by fastforce
  then obtain first where f: "opt_index0 (opt_prop (Some data) ''choices'') = Some first"
    using opt_prop_defined by fastforce
  then obtain choices where c: "opt_prop (Some data) ''choices'' = Some choices"
    using opt_index0_defined by fastforce
  have "strict_prop (Some data) ''choices'' = Inr (Some choices)"
    using c by (rule opt_prop_Some)
  moreover have "index0 (Some choices) = Inr (Some first)"
    using f c by (simp add: opt_index0_Some)
  moreover have "strict_prop (Some first) ''message'' = Inr (Some message)"
    using m f by (simp add: opt_prop_Some)
  moreover have "strict_prop (Some message) ''content'' = Inr (Some (JStr s))"
    using p m by (simp add: opt_prop_Some)
  ultimately have "chat_result data model =
      Inr (JObj (object_of
        [(''content'', Some (JStr s)),
         (''model'', js_or (get_field data ''model'') (Some model)),
         (''usage'', get_field data ''usage'')]))"
    by (simp add: chat_result_def)
  moreover have "get_field (JObj (object_of
        [(''content'', Some (JStr s)),
         (''model'', js_or (get_field data ''model'') (Some model)),
         (''usage'', get_field data ''usage'')])) ''content'' = Some (JStr s)"
    by (cases "js_or (get_field data ''model'') (Some model)"; cases "get_field data ''usage''")
      simp_all
  ultimately show ?thesis by blast
qed

text \<open>
  C1. A stub upstream is deterministic when it answers the buffered call with a completion
  whose content is a text and the streaming call with a stream whose frames, decoded as the
  specification says, carry texts that concatenate to that content, in whatever chunks. For
  every valid request the streaming endpoint writes the chunks of the upstream stream
  unchanged and in order, up to the end or the error of that stream, and what it has written
  at any moment is a prefix of what it has written later. With such an upstream the frames it
  delivers decode to those texts, and their concatenation is the content member of the body
  that the buffered endpoint returns.
\<close>

theorem stream_relay_transparent:
  "(map_of (rev (req_body req)) ''messages'' = Some ms \<and> is_array ms
      \<and> post (build_request K req ms True) = Resolved (sent @ rest)
    \<longrightarrow> written (log (fst (chat_stream_handler K post req))) = forwarded (sent @ rest)
        \<and> prefix (written (log (pipe_stream sent (sse_headers fresh))))
            (written (log (fst (chat_stream_handler K post req)))))
   \<and> (map_of (rev (req_body req)) ''messages'' = Some ms \<and> is_array ms
      \<and> post (build_request K req ms True) = Resolved (sent @ rest)
      \<and> post' (build_request K req ms False) = Resolved data
      \<and> probe_path completion_path (Some data) = Some (JStr (concat ts))
      \<and> spec_frame_decoder parse (concat (forwarded (sent @ rest))) = map JStr ts
    \<longrightarrow> spec_frame_decoder parse
            (concat (written (log (fst (chat_stream_handler K post req))))) = map JStr ts
        \<and> sent_content (fst (chat_handler K post' req)) = Some (JStr (concat ts)))"
proof (intro conjI impI)
  assume a: "map_of (rev (req_body req)) ''messages'' = Some ms \<and> is_array ms
      \<and> post (build_request K req ms True) = Resolved (sent @ rest)"
  then have h: "fst (chat_stream_handler K post req)
                  = pipe_stream (sent @ rest) (sse_headers fresh)"
    by (simp add: stream_handler_resolved)
  have nf: "\<not> finished (sse_headers fresh)" and l0: "written (log (sse_headers fresh)) = []"
    using sse_headers_fresh by simp_all
  show w: "written (log (fst (chat_stream_handler K post req))) = forwarded (sent @ rest)"
    using h pipe_stream_written [OF nf, of "sent @ rest"] l0 by simp
  have "prefix (log (pipe_stream sent (sse_headers fresh)))
          (log (pipe_stream rest (pipe_stream sent (sse_headers fresh))))"
    by (rule pipe_stream_log_prefix)
  then obtain zs where "log (pipe_stream (sent @ rest) (sse_headers fresh))
      = log (pipe_stream sent (sse_headers fresh)) @ zs"
    by (auto simp: pipe_stream_append prefix_def)
  then show "prefix (written (log (pipe_stream sent (sse_headers fresh))))
            (written (log (fst (chat_stream_handler K post req))))"
    using h by (simp add: written_append)
next
  assume a: "map_of (rev (req_body req)) ''messages'' = Some ms \<and> is_array ms
      \<and> post (build_request K req ms True) = Resolved (sent @ rest)
      \<and> post' (build_request K req ms False) = Resolved data
      \<and> probe_path completion_path (Some data) = Some (JStr (concat ts))
      \<and> spec_frame_decoder parse (concat (forwarded (sent @ rest))) = map JStr ts"
  then have h: "fst (chat_stream_handler K post req)
                  = pipe_stream (sent @ rest) (sse_headers fresh)"
    by (simp add: stream_handler_resolved)
  have nf: "\<not> finished (sse_headers fresh)" and l0: "written (log (sse_headers fresh)) = []"
    using sse_headers_fresh by simp_all
  have w: "written (log (fst (chat_stream_handler K post req))) = forwarded (sent @ rest)"
    using h pipe_stream_written [OF nf, of "sent @ rest"] l0 by simp
  show "spec_frame_decoder parse
          (concat (written (log (fst (chat_stream_handler K post req))))) = map JStr ts"
    using a w by simp
  obtain result
    where r: "chat_result data (up_model (build_request K req ms False)) = Inr result"
      and c: "get_field result ''content'' = Some (JStr (concat ts))"
    using a completion_content [of data "concat ts" "up_model (build_request K req ms False)"]
    by blast
  have "chat_handler K post' req = (res_json result fresh, [build_request K req ms False])"
    using a r by (simp add: chat_handler_resolved)
  then show "sent_content (fst (chat_handler K post' req)) = Some (JStr (concat ts))"
    using c by (simp add: sent_content_def res_json_def fresh_def)
qed

lemma hello_fixture:
  "map_of (rev (req_body hello_request)) ''messages''
     = Some (JArr [JObj [(''role'', JStr ''user''), (''content'', JStr ''Hi'')]])
   \<and> probe_path completion_path (Some hello_completion) = Some (JStr (concat [''Hel'', ''lo'']))"
  by (simp add: hello_request_def hello_completion_def completion_path_def)

lemma hello_midline_frames:
  "spec_frame_decoder json_parse
     (concat (forwarded (map Data hello_midline @ [End_of_stream])))
     = map JStr [''Hel'', ''lo'']"
  by code_simp

text \<open>
  The stub that streams \<^verbatim>\<open>Hel\<close> and \<^verbatim>\<open>lo\<close> in chunks cut inside a record and answers
  the buffered call with \<^verbatim>\<open>Hello\<close>.
\<close>

theorem stream_relay_transparent_witness:
  "written (log (fst (chat_stream_handler ''k'' hello_stream hello_request))) = hello_midline
   \<and> spec_frame_decoder json_parse
       (concat (written (log (fst (chat_stream_handler ''k'' hello_stream hello_request)))))
     = [JStr ''Hel'', JStr ''lo'']
   \<and> sent_content (fst (chat_handler ''k'' hello_json hello_request)) = Some (JStr ''Hello'')"
  using stream_relay_transparent
    [where req = hello_request and K = "''k''" and post = hello_stream
       and post' = hello_json and parse = json_parse
       and ms = "JArr [JObj [(''role'', JStr ''user''), (''content'', JStr ''Hi'')]]"
       and sent = "map Data hello_midline" and rest = "[End_of_stream]"
       and data = hello_completion and ts = "[''Hel'', ''lo'']"]
    hello_fixture hello_midline_frames
  by (simp add: hello_stream_def hello_json_def hello_midline_def)

end
